theory Spec2Isabelle
  imports Complex_Main "HOL-Library.AList"
begin

section \<open>The crawler of \<^verbatim>\<open>src/main.py\<close>\<close>

text \<open>
  The script crawls a paginated catalogue: it reads the host's robots.txt, fetches
  listing pages with a retrying GET, extracts the rows of the results table, fetches
  every row's detail page and writes one JSON file per listing page.

  What the script reads from its surroundings is given as an explicit environment:
  the module-level constant \<^verbatim>\<open>BASE_URL\<close> (used by the functions, assigned only by the
  interactive prompt), the answers of the remote host, and the library functions
  \<^verbatim>\<open>BeautifulSoup(html, "lxml")\<close>, \<^verbatim>\<open>urljoin\<close> and \<^verbatim>\<open>urlparse(..).path\<close>.
  A function of the script that can raise returns a sum, with the exception on the
  left; one that has effects as well returns that sum together with the world in
  which it ended.
  What the script does to its surroundings is recorded in a world state: the
  chronological trace of sleeps and requests, and the files of the output directory.
  Calls of \<^verbatim>\<open>logging\<close> have no influence on control flow and are left out, and so
  are the headers that \<^verbatim>\<open>build_session\<close> puts on the session. The output directory
  takes every write. A character stands for the Unicode code point of its number, so
  the texts of the model are those over the code points below 256.
\<close>

subsection \<open>Responses, events, environment, world\<close>

text \<open>\<^verbatim>\<open>requests.Response\<close>: the two attributes the script reads.\<close>

record response =
  status_code :: int
  text_of :: string

text \<open>
  The result of one \<^verbatim>\<open>session.get\<close>: a response, or \<^verbatim>\<open>requests.RequestException\<close>
  (connection reset, timeout, DNS failure).
\<close>

datatype outcome = Response response | RequestException

text \<open>
  Observable effects, in the order they happen: the politeness sleep before a request
  (its random duration is not recorded), a GET of a URL through the session, the
  backoff sleep with its duration in seconds, and the retrieval of robots.txt that
  \<^verbatim>\<open>RobotFileParser.read\<close> performs.
\<close>

datatype event = Jitter | Request string | Backoff real | ReadRobots string

text \<open>The exception that the library calls of the script raise on bad text:
  \<^verbatim>\<open>urljoin\<close> and \<^verbatim>\<open>urlparse\<close> on a URL they cannot split, \<^verbatim>\<open>int\<close> on a string it cannot
  read.\<close>

datatype exn = ValueError

text \<open>A parsed document as BeautifulSoup presents it: text nodes and tags. Of a tag the
  script reads its name, its \<^verbatim>\<open>class\<close> tokens, its \<^verbatim>\<open>href\<close> attribute and its children.\<close>

datatype node = Text string | Tag string "string list" "string option" "node list"

record env =
  BASE_URL :: string
  session_get :: "event list \<Rightarrow> string \<Rightarrow> outcome"
  soup :: "string \<Rightarrow> node"
  urljoin :: "string \<Rightarrow> string \<Rightarrow> string"
  urlparse_path :: "string \<Rightarrow> string"
  urlsplit_raises :: "string \<Rightarrow> bool"

text \<open>
  \<open>session_get e tr url\<close> is what the host answers to a GET of \<open>url\<close> issued after the
  history \<open>tr\<close>; a stub that answers 503 twice and then 200 is such a function.
  \<open>urljoin e base ref\<close> and \<open>urlparse_path e url\<close> are what the library calls return
  when they return, and \<open>urlsplit_raises e s\<close> says that \<^verbatim>\<open>urlsplit\<close> raises
  \<^verbatim>\<open>ValueError\<close> on \<open>s\<close>.
  The output directory maps a page index to the dictionary stored in
  \<^verbatim>\<open>page_<index>.json\<close> (the file name is an injective function of the index).
  A Python \<^verbatim>\<open>dict\<close> keeps insertion order and overwrites in place, as an association
  list under \<open>AList.update\<close> does.
\<close>

type_synonym pydict = "(string \<times> string) list"

record world =
  trace :: "event list"
  files :: "int \<rightharpoonup> pydict"

subsection \<open>Settings\<close>

definition MAX_LIST_RETRIES :: int where "MAX_LIST_RETRIES = 3"
definition MAX_DETAIL_RETRIES :: int where "MAX_DETAIL_RETRIES = 3"
definition STOP_ON_CONSECUTIVE_LIST_FAILS :: int where "STOP_ON_CONSECUTIVE_LIST_FAILS = 5"

text \<open>The factor of \<^verbatim>\<open>backoff = 1.5 * attempt\<close>.\<close>

definition backoff_base :: real where "backoff_base = 3 / 2"

subsection \<open>\<^verbatim>\<open>polite_get\<close>\<close>

text \<open>\<^verbatim>\<open>resp.status_code in (429,) or resp.status_code >= 500\<close>\<close>

definition retry_status :: "response \<Rightarrow> bool" where
  "retry_status resp \<longleftrightarrow> status_code resp = 429 \<or> status_code resp \<ge> 500"

text \<open>
  The body of \<^verbatim>\<open>for attempt in range(1, retries + 1)\<close>, as recursion over the attempt
  numbers still to run. \<^verbatim>\<open>continue\<close> and the end of the \<^verbatim>\<open>except\<close> block go on
  with the next number; \<^verbatim>\<open>return resp\<close> leaves the loop; the exhausted loop
  returns \<^verbatim>\<open>None\<close>.
\<close>

fun polite_get_loop :: "env \<Rightarrow> string \<Rightarrow> int list \<Rightarrow> event list \<Rightarrow> response option \<times> event list" where
  "polite_get_loop e url [] tr = (None, tr)"
| "polite_get_loop e url (attempt # rest) tr =
     (case session_get e (tr @ [Jitter]) url of
        Response resp \<Rightarrow>
          if retry_status resp
          then polite_get_loop e url rest
                 (tr @ [Jitter, Request url, Backoff (backoff_base * of_int attempt)])
          else (Some resp, tr @ [Jitter, Request url])
      | RequestException \<Rightarrow>
          polite_get_loop e url rest
            (tr @ [Jitter, Request url, Backoff (backoff_base * of_int attempt)]))"

definition polite_get :: "env \<Rightarrow> string \<Rightarrow> int \<Rightarrow> event list \<Rightarrow> response option \<times> event list" where
  "polite_get e url retries tr = polite_get_loop e url [1..retries] tr"

subsection \<open>Calls of \<^verbatim>\<open>urljoin\<close> and \<^verbatim>\<open>urlparse\<close>\<close>

text \<open>
  \<^verbatim>\<open>urlsplit\<close> raises only while it checks a network location, which it reads when
  the URL, after tab, line feed and carriage return are removed and a scheme is cut
  off, starts with two slashes. A string in which no two slashes meet after that
  removal is split without an exception.
\<close>

fun double_slash :: "string \<Rightarrow> bool" where
  "double_slash (a # b # s) \<longleftrightarrow> (a = CHR ''/'' \<and> b = CHR ''/'') \<or> double_slash (b # s)"
| "double_slash s \<longleftrightarrow> False"

definition may_have_netloc :: "string \<Rightarrow> bool" where
  "may_have_netloc s \<longleftrightarrow>
     double_slash (filter (\<lambda>c. c \<noteq> CHR 0x09 \<and> c \<noteq> CHR 0x0A \<and> c \<noteq> CHR 0x0D) s)"

definition url_error :: "env \<Rightarrow> string \<Rightarrow> bool" where
  "url_error e s \<longleftrightarrow> may_have_netloc s \<and> urlsplit_raises e s"

text \<open>
  \<^verbatim>\<open>urljoin(base, ref)\<close> returns at once when one of the two is empty and splits both
  otherwise; \<^verbatim>\<open>urlparse(url).path\<close> splits the URL.
\<close>

definition call_urljoin :: "env \<Rightarrow> string \<Rightarrow> string \<Rightarrow> exn + string" where
  "call_urljoin e base ref =
     (if base \<noteq> [] \<and> ref \<noteq> [] \<and> (url_error e base \<or> url_error e ref) then Inl ValueError
      else Inr (urljoin e base ref))"

definition call_urlparse_path :: "env \<Rightarrow> string \<Rightarrow> exn + string" where
  "call_urlparse_path e url = (if url_error e url then Inl ValueError else Inr (urlparse_path e url))"

subsection \<open>robots.txt\<close>

text \<open>
  \<^verbatim>\<open>urllib.robotparser.RobotFileParser\<close> of the Python standard library, with the
  attributes that decide \<^verbatim>\<open>can_fetch\<close>. \<open>last_checked\<close> stands for "the time stamp
  is not 0", that is, \<^verbatim>\<open>parse\<close> has run. \<open>rules\<close> is the verdict of the parsed
  entries for a user agent and a URL; \<open>None\<close> stands for an exception raised while
  the URL is evaluated.
\<close>

record robot_parser =
  disallow_all :: bool
  allow_all :: bool
  last_checked :: bool
  rules :: "string \<Rightarrow> string \<Rightarrow> bool option"

text \<open>
  What \<^verbatim>\<open>urlopen\<close> of the robots.txt URL gives: an error that is not an HTTP status
  (no connection, DNS failure, timeout), an HTTP error status, a body that is not
  UTF-8, or a body, given by the rules that \<^verbatim>\<open>parse\<close> reads from it.
\<close>

datatype robots_fetch =
  URLError | HTTPError int | Undecodable | Fetched "string \<Rightarrow> string \<Rightarrow> bool option"

text \<open>\<^verbatim>\<open>RobotFileParser()\<close>: no entries, so the rules grant every URL.\<close>

definition RobotFileParser :: robot_parser where
  "RobotFileParser =
     \<lparr>disallow_all = False, allow_all = False, last_checked = False,
      rules = (\<lambda>ua url. Some True)\<rparr>"

text \<open>\<^verbatim>\<open>rp.read()\<close>; \<open>None\<close> when it raises. A raising \<^verbatim>\<open>read\<close> has changed no attribute.\<close>

fun rp_read :: "robots_fetch \<Rightarrow> robot_parser \<Rightarrow> robot_parser option" where
  "rp_read URLError rp = None"
| "rp_read (HTTPError code) rp =
     Some (if code = 401 \<or> code = 403 then rp\<lparr>disallow_all := True\<rparr>
           else if code \<ge> 400 \<and> code < 500 then rp\<lparr>allow_all := True\<rparr>
           else rp)"
| "rp_read Undecodable rp = None"
| "rp_read (Fetched rs) rp = Some (rp\<lparr>last_checked := True, rules := rs\<rparr>)"

text \<open>\<^verbatim>\<open>rp.can_fetch(useragent, url)\<close>; \<open>None\<close> when it raises.\<close>

definition rp_can_fetch :: "robot_parser \<Rightarrow> string \<Rightarrow> string \<Rightarrow> bool option" where
  "rp_can_fetch rp useragent url =
     (if disallow_all rp then Some False
      else if allow_all rp then Some True
      else if \<not> last_checked rp then Some False
      else rules rp useragent url)"

text \<open>The call of \<^verbatim>\<open>urljoin\<close> stands before the \<^verbatim>\<open>try\<close>: its exception leaves the
  function. \<^verbatim>\<open>rp.set_url\<close> splits the URL with \<^verbatim>\<open>urlparse\<close> and sets attributes that
  \<^verbatim>\<open>can_fetch\<close> does not read; its exception and that of \<^verbatim>\<open>rp.read()\<close> are caught.\<close>

definition init_robots_parser ::
  "env \<Rightarrow> robots_fetch \<Rightarrow> world \<Rightarrow> (exn + robot_parser) \<times> world" where
  "init_robots_parser e robots w =
     (let rp = RobotFileParser in
      case call_urljoin e (BASE_URL e) ''/robots.txt'' of
        Inl x \<Rightarrow> (Inl x, w)
      | Inr robots_url \<Rightarrow>
          (case call_urlparse_path e robots_url of
             Inl x \<Rightarrow> (Inr rp, w)
           | Inr path \<Rightarrow>
               (let w' = w\<lparr>trace := trace w @ [ReadRobots robots_url]\<rparr>
                in case rp_read robots rp of
                     Some rp' \<Rightarrow> (Inr rp', w')
                   | None \<Rightarrow> (Inr rp, w'))))"

text \<open>\<^verbatim>\<open>s.startswith(p)\<close>\<close>

definition startswith :: "string \<Rightarrow> string \<Rightarrow> bool" where
  "startswith s p \<longleftrightarrow> take (length p) s = p"

text \<open>The whole body stands in a \<^verbatim>\<open>try\<close>: an exception of \<^verbatim>\<open>urljoin\<close> or of
  \<^verbatim>\<open>rp.can_fetch\<close> gives \<^verbatim>\<open>True\<close>.\<close>

definition can_fetch :: "env \<Rightarrow> robot_parser \<Rightarrow> string \<Rightarrow> string \<Rightarrow> bool" where
  "can_fetch e rp ua path_or_url =
     (case (if startswith path_or_url ''http'' then Inr path_or_url
            else call_urljoin e (BASE_URL e) path_or_url) of
        Inl x \<Rightarrow> True
      | Inr full_path \<Rightarrow>
          (case rp_can_fetch rp ua full_path of
             Some b \<Rightarrow> b
           | None \<Rightarrow> True))"

subsection \<open>Strings\<close>

text \<open>
  Among the code points below 256, \<^verbatim>\<open>str.isspace\<close> holds of tab, line feed, vertical
  tab, form feed, carriage return, the separators 28 to 31, the space, the next-line
  control 133 and the no-break space 160. \<^verbatim>\<open>str.isdigit\<close> holds of the decimal
  digits 0 to 9 and of the superscript digits two, three and one (178, 179, 185);
  \<^verbatim>\<open>str.isdecimal\<close> holds of the decimal digits only.
\<close>

definition isspace :: "char \<Rightarrow> bool" where
  "isspace c \<longleftrightarrow> (of_char c :: nat) \<in> {9, 10, 11, 12, 13, 28, 29, 30, 31, 32, 133, 160}"

definition strip :: "string \<Rightarrow> string" where
  "strip s = rev (dropWhile isspace (rev (dropWhile isspace s)))"

definition isdecimal_char :: "char \<Rightarrow> bool" where
  "isdecimal_char c \<longleftrightarrow> 48 \<le> (of_char c :: nat) \<and> (of_char c :: nat) \<le> 57"

definition isdigit_char :: "char \<Rightarrow> bool" where
  "isdigit_char c \<longleftrightarrow> isdecimal_char c \<or> (of_char c :: nat) \<in> {178, 179, 185}"

definition isdigit :: "string \<Rightarrow> bool" where
  "isdigit s \<longleftrightarrow> s \<noteq> [] \<and> list_all isdigit_char s"

definition isdecimal :: "string \<Rightarrow> bool" where
  "isdecimal s \<longleftrightarrow> s \<noteq> [] \<and> list_all isdecimal_char s"

text \<open>
  \<^verbatim>\<open>int(txt)\<close> for a \<^verbatim>\<open>txt\<close> that \<^verbatim>\<open>isdigit\<close> accepts: the value of the decimal
  digits, and \<^verbatim>\<open>ValueError\<close> when a character is not a decimal digit or when there
  are more digits than the interpreter's limit for the conversion, 4300.
\<close>

definition int_of_str :: "string \<Rightarrow> int" where
  "int_of_str s = foldl (\<lambda>n c. 10 * n + (int (of_char c) - 48)) 0 s"

definition max_str_digits :: nat where "max_str_digits = 4300"

definition call_int :: "string \<Rightarrow> exn + int" where
  "call_int txt =
     (if isdecimal txt \<and> length txt \<le> max_str_digits then Inr (int_of_str txt)
      else Inl ValueError)"

text \<open>\<^verbatim>\<open>str(n)\<close> for an integer, and \<^verbatim>\<open>s.rstrip('/')\<close>.\<close>

fun str_nat :: "nat \<Rightarrow> string" where
  "str_nat n =
     (if n < 10 then [''0123456789'' ! n] else str_nat (n div 10) @ [''0123456789'' ! (n mod 10)])"

definition str_int :: "int \<Rightarrow> string" where
  "str_int i = (if i < 0 then CHR ''-'' # str_nat (nat (- i)) else str_nat (nat i))"

definition rstrip_slash :: "string \<Rightarrow> string" where
  "rstrip_slash s = rev (dropWhile (\<lambda>c. c = CHR ''/'') (rev s))"

text \<open>\<^verbatim>\<open>LIST_URL_TEMPLATE.format(page=page_index)\<close>, with the template that the script
  sets before it calls \<^verbatim>\<open>run_range\<close>, for a base URL without braces (which
  \<^verbatim>\<open>format\<close> reads as fields).\<close>

definition list_url :: "env \<Rightarrow> int \<Rightarrow> string" where
  "list_url e page_index = rstrip_slash (BASE_URL e) @ ''/home/DrugSearch?page='' @ str_int page_index"

subsection \<open>BeautifulSoup queries\<close>

text \<open>A compound CSS selector: a tag name, the classes required, and whether an
  \<^verbatim>\<open>href\<close> attribute is required (\<^verbatim>\<open>table.table.s-row\<close>, \<^verbatim>\<open>a[href]\<close>).\<close>

datatype compound = Sel string "string list" bool

fun matches :: "compound \<Rightarrow> node \<Rightarrow> bool" where
  "matches (Sel name classes need_href) (Text s) = False"
| "matches (Sel name classes need_href) (Tag n cs h ch) \<longleftrightarrow>
     n = name \<and> set classes \<subseteq> set cs \<and> (need_href \<longrightarrow> h \<noteq> None)"

text \<open>
  The tags at or below a node that match a selector whose compounds are joined by the
  descendant combinator, in document order. \<open>ps\<close> holds the compounds not yet
  matched by an ancestor; the last one is matched by the tag itself.
\<close>

fun select_from :: "compound list \<Rightarrow> node \<Rightarrow> node list" where
  "select_from ps (Text s) = []"
| "select_from ps (Tag n cs h ch) =
     (if length ps = 1 \<and> matches (hd ps) (Tag n cs h ch) then [Tag n cs h ch] else []) @
     concat (map (select_from
                    (if length ps > 1 \<and> matches (hd ps) (Tag n cs h ch) then tl ps else ps))
                 ch)"

fun children :: "node \<Rightarrow> node list" where
  "children (Text s) = []"
| "children (Tag n cs h ch) = ch"

text \<open>\<^verbatim>\<open>tag.select(selector)\<close> and \<^verbatim>\<open>tag.select_one(selector)\<close>\<close>

definition select :: "compound list \<Rightarrow> node \<Rightarrow> node list" where
  "select ps t = concat (map (select_from ps) (children t))"

definition select_one :: "compound list \<Rightarrow> node \<Rightarrow> node option" where
  "select_one ps t = (case select ps t of [] \<Rightarrow> None | x # xs \<Rightarrow> Some x)"

text \<open>\<^verbatim>\<open>tag.find_all(name)\<close>, \<^verbatim>\<open>tag.find_all(name, href=True)\<close> and \<^verbatim>\<open>tag.find(name)\<close>:
  the descendants with that name, in document order, and the first of them.\<close>

definition find_all :: "string \<Rightarrow> node \<Rightarrow> node list" where
  "find_all name t = select [Sel name [] False] t"

definition find_all_href :: "string \<Rightarrow> node \<Rightarrow> node list" where
  "find_all_href name t = select [Sel name [] True] t"

definition find :: "string \<Rightarrow> node \<Rightarrow> node option" where
  "find name t = (case find_all name t of [] \<Rightarrow> None | x # xs \<Rightarrow> Some x)"

text \<open>\<^verbatim>\<open>tag.get_text(strip=True)\<close>: the strings below the tag, each stripped, the empty
  ones dropped, joined without a separator.\<close>

fun strings :: "node \<Rightarrow> string list" where
  "strings (Text s) = [s]"
| "strings (Tag n cs h ch) = concat (map strings ch)"

definition get_text_strip :: "node \<Rightarrow> string" where
  "get_text_strip t = concat (filter (\<lambda>s. s \<noteq> []) (map strip (strings t)))"

text \<open>\<^verbatim>\<open>tag["href"]\<close>, read only of a tag selected by \<^verbatim>\<open>a[href]\<close>.\<close>

fun href_of :: "node \<Rightarrow> string" where
  "href_of (Tag n cs (Some h) ch) = h"
| "href_of t = []"

subsection \<open>\<^verbatim>\<open>parse_listing_for_items\<close>\<close>

text \<open>One pass of the loop over the rows: \<open>Inr None\<close> for \<^verbatim>\<open>continue\<close>, the appended pair
  otherwise, and the exception of \<^verbatim>\<open>urljoin\<close>, which nothing catches.\<close>

definition row_item :: "env \<Rightarrow> node \<Rightarrow> exn + (string \<times> string) option" where
  "row_item e tr =
     (let tds = find_all ''td'' tr in
      if length tds < 5 then Inr None
      else let reg_no = strip (get_text_strip (hd tds));
               view_link = select_one [Sel ''a'' [] True] (last tds)
           in case view_link of
                None \<Rightarrow> Inr None
              | Some a \<Rightarrow>
                  if reg_no = [] then Inr None
                  else (case call_urljoin e (BASE_URL e) (href_of a) of
                          Inl x \<Rightarrow> Inl x
                        | Inr detail_url \<Rightarrow> Inr (Some (reg_no, detail_url))))"

fun rows_loop ::
  "env \<Rightarrow> node list \<Rightarrow> (string \<times> string) list \<Rightarrow> exn + (string \<times> string) list" where
  "rows_loop e [] items = Inr items"
| "rows_loop e (tr # trs) items =
     (case row_item e tr of
        Inl x \<Rightarrow> Inl x
      | Inr None \<Rightarrow> rows_loop e trs items
      | Inr (Some item) \<Rightarrow> rows_loop e trs (items @ [item]))"

definition results_tbody :: "compound list" where
  "results_tbody =
     [Sel ''div'' [''table-responsive''] False, Sel ''table'' [''table'', ''s-row''] False,
      Sel ''tbody'' [] False]"

definition parse_listing_for_items :: "env \<Rightarrow> string \<Rightarrow> exn + (string \<times> string) list" where
  "parse_listing_for_items e html =
     (case select_one results_tbody (soup e html) of
        None \<Rightarrow> Inr []
      | Some tbody \<Rightarrow> rows_loop e (select [Sel ''tr'' [] False] tbody) [])"

subsection \<open>\<^verbatim>\<open>find_last_page_number\<close>\<close>

text \<open>The loop over the anchors with an \<^verbatim>\<open>href\<close>; the exception of \<^verbatim>\<open>int\<close> leaves it.\<close>

fun anchors_loop :: "node list \<Rightarrow> int list \<Rightarrow> exn + int list" where
  "anchors_loop [] nums = Inr nums"
| "anchors_loop (a # as) nums =
     (let txt = get_text_strip a in
      if isdigit txt
      then (case call_int txt of
              Inl x \<Rightarrow> Inl x
            | Inr n \<Rightarrow> anchors_loop as (nums @ [n]))
      else anchors_loop as nums)"

text \<open>\<^verbatim>\<open>max(nums)\<close> of a list that is not empty.\<close>

fun max_list :: "int list \<Rightarrow> int" where
  "max_list [] = 0"
| "max_list [x] = x"
| "max_list (x # y # ys) = max x (max_list (y # ys))"

text \<open>\<^verbatim>\<open>return max(nums) if nums else None\<close>\<close>

definition max_or_none :: "int list \<Rightarrow> int option" where
  "max_or_none nums = (if nums = [] then None else Some (max_list nums))"

definition find_last_page_number :: "env \<Rightarrow> string \<Rightarrow> exn + int option" where
  "find_last_page_number e html =
     (case select_one [Sel ''ul'' [''pagination''] False] (soup e html) of
        None \<Rightarrow> Inr None
      | Some ul \<Rightarrow>
          (case anchors_loop (find_all_href ''a'' ul) [] of
             Inl x \<Rightarrow> Inl x
           | Inr nums \<Rightarrow>
               (case find ''span'' ul of
                  None \<Rightarrow> Inr (max_or_none nums)
                | Some sp \<Rightarrow>
                    if isdigit (get_text_strip sp)
                    then (case call_int (get_text_strip sp) of
                            Inl x \<Rightarrow> Inl x
                          | Inr n \<Rightarrow> Inr (max_or_none (nums @ [n])))
                    else Inr (max_or_none nums))))"

subsection \<open>Detail pages and storage\<close>

text \<open>
  The truth value of a \<^verbatim>\<open>requests.Response\<close> is its \<^verbatim>\<open>ok\<close>: the status is not a
  client or server error. \<open>failed\<close> is the test
  \<^verbatim>\<open>not resp or resp.status_code != 200\<close> on the result of \<^verbatim>\<open>polite_get\<close>.
\<close>

definition ok :: "response \<Rightarrow> bool" where
  "ok resp \<longleftrightarrow> \<not> (400 \<le> status_code resp \<and> status_code resp < 600)"

fun failed :: "response option \<Rightarrow> bool" where
  "failed None = True"
| "failed (Some resp) \<longleftrightarrow> \<not> ok resp \<or> status_code resp \<noteq> 200"

definition fetch_detail_html :: "env \<Rightarrow> string \<Rightarrow> event list \<Rightarrow> string option \<times> event list" where
  "fetch_detail_html e detail_url tr =
     (case polite_get e detail_url MAX_DETAIL_RETRIES tr of
        (resp, tr') \<Rightarrow> (if failed resp then None else Some (text_of (the resp)), tr'))"

definition save_page_json :: "int \<Rightarrow> pydict \<Rightarrow> world \<Rightarrow> world" where
  "save_page_json page_index mapping w = w\<lparr>files := (files w)(page_index \<mapsto> mapping)\<rparr>"

subsection \<open>\<^verbatim>\<open>process_one_page\<close>\<close>

text \<open>The loop \<^verbatim>\<open>for reg_no, detail_url in items\<close> with the dictionary it fills.
  \<^verbatim>\<open>if html\<close> holds of a string that is not empty. The exception of
  \<^verbatim>\<open>urlparse(detail_url)\<close> leaves the loop with the trace as it is then.\<close>

fun details_loop ::
  "env \<Rightarrow> robot_parser \<Rightarrow> string \<Rightarrow> (string \<times> string) list \<Rightarrow> pydict \<Rightarrow> event list \<Rightarrow>
   (exn + pydict) \<times> event list" where
  "details_loop e rp ua [] result_map tr = (Inr result_map, tr)"
| "details_loop e rp ua ((reg_no, detail_url) # items) result_map tr =
     (case call_urlparse_path e detail_url of
        Inl x \<Rightarrow> (Inl x, tr)
      | Inr path \<Rightarrow>
          if \<not> can_fetch e rp ua path
          then details_loop e rp ua items result_map tr
          else (case fetch_detail_html e detail_url tr of
                  (Some html, tr') \<Rightarrow>
                    if html \<noteq> []
                    then details_loop e rp ua items (AList.update reg_no html result_map) tr'
                    else details_loop e rp ua items result_map tr'
                | (None, tr') \<Rightarrow> details_loop e rp ua items result_map tr'))"

text \<open>An exception of the parser or of the loop leaves the function before the file is
  written.\<close>

definition process_one_page ::
  "env \<Rightarrow> robot_parser \<Rightarrow> string \<Rightarrow> int \<Rightarrow> world \<Rightarrow> (exn + bool) \<times> world" where
  "process_one_page e rp ua page_index w =
     (if \<not> can_fetch e rp ua ''/home/DrugSearch'' then (Inr False, w)
      else case polite_get e (list_url e page_index) MAX_LIST_RETRIES (trace w) of
             (resp, tr) \<Rightarrow>
               if failed resp then (Inr False, w\<lparr>trace := tr\<rparr>)
               else (case parse_listing_for_items e (text_of (the resp)) of
                       Inl x \<Rightarrow> (Inl x, w\<lparr>trace := tr\<rparr>)
                     | Inr items \<Rightarrow>
                         (case details_loop e rp ua items [] tr of
                            (Inl x, tr') \<Rightarrow> (Inl x, w\<lparr>trace := tr'\<rparr>)
                          | (Inr result_map, tr') \<Rightarrow>
                              (Inr True, save_page_json page_index result_map (w\<lparr>trace := tr'\<rparr>)))))"

subsection \<open>\<^verbatim>\<open>run_range\<close>\<close>

text \<open>
  The loop \<^verbatim>\<open>for page in range(start_page, end_page + 1)\<close> with the counter
  \<^verbatim>\<open>consecutive_list_fails\<close>; it returns the counter, or the exception that left it,
  and the world it ends with. \<^verbatim>\<open>out_file.exists()\<close> is \<open>files w page \<noteq> None\<close>;
  \<^verbatim>\<open>break\<close> ends the recursion.
\<close>

fun page_loop ::
  "env \<Rightarrow> robot_parser \<Rightarrow> string \<Rightarrow> int list \<Rightarrow> int \<Rightarrow> world \<Rightarrow> (exn + int) \<times> world" where
  "page_loop e rp ua [] consecutive_list_fails w = (Inr consecutive_list_fails, w)"
| "page_loop e rp ua (page # pages) consecutive_list_fails w =
     (if files w page \<noteq> None then page_loop e rp ua pages consecutive_list_fails w
      else case process_one_page e rp ua page w of
             (Inl x, w') \<Rightarrow> (Inl x, w')
           | (Inr False, w') \<Rightarrow>
               if consecutive_list_fails + 1 \<ge> STOP_ON_CONSECUTIVE_LIST_FAILS
               then (Inr (consecutive_list_fails + 1), w')
               else page_loop e rp ua pages (consecutive_list_fails + 1) w'
           | (Inr True, w') \<Rightarrow> page_loop e rp ua pages 0 w')"

text \<open>
  The branch \<^verbatim>\<open>if end_page is None\<close> after a detection fetch that did not fail: the
  last page (\<^verbatim>\<open>if not last\<close> holds of \<^verbatim>\<open>None\<close> and of 0), then the start page,
  processed unless its file exists. It returns the last page and the counter, or the
  exception of \<^verbatim>\<open>find_last_page_number\<close> or \<^verbatim>\<open>process_one_page\<close>, and the world.
\<close>

definition detect_and_first ::
  "env \<Rightarrow> robot_parser \<Rightarrow> string \<Rightarrow> int \<Rightarrow> response \<Rightarrow> world \<Rightarrow> (exn + int \<times> int) \<times> world" where
  "detect_and_first e rp ua start_page resp w =
     (case find_last_page_number e (text_of resp) of
        Inl x \<Rightarrow> (Inl x, w)
      | Inr found \<Rightarrow>
          (let last_page = (case found of
                              None \<Rightarrow> start_page
                            | Some l \<Rightarrow> if l = 0 then start_page else l)
           in if files w start_page \<noteq> None then (Inr (last_page, 0), w)
              else case process_one_page e rp ua start_page w of
                     (Inl x, w') \<Rightarrow> (Inl x, w')
                   | (Inr False, w') \<Rightarrow> (Inr (last_page, 0 + 1), w')
                   | (Inr True, w') \<Rightarrow> (Inr (last_page, 0), w')))"

text \<open>The end of \<^verbatim>\<open>run_range\<close> after its loop: it returns \<^verbatim>\<open>None\<close>, or the exception of
  the loop goes on.\<close>

fun after_loop :: "(exn + int) \<times> world \<Rightarrow> exn option \<times> world" where
  "after_loop (Inl x, w) = (Some x, w)"
| "after_loop (Inr fails, w) = (None, w)"

text \<open>\<open>ua\<close> is the result of \<^verbatim>\<open>get_user_agent()\<close>, \<open>robots\<close> what the retrieval of
  robots.txt gives in this run. The result is the exception that ended the run, if
  one did, and the world at the end.\<close>

definition run_range ::
  "env \<Rightarrow> robots_fetch \<Rightarrow> string \<Rightarrow> int \<Rightarrow> int option \<Rightarrow> world \<Rightarrow> exn option \<times> world" where
  "run_range e robots ua start_page end_page w =
     (case init_robots_parser e robots w of
        (Inl x, w1) \<Rightarrow> (Some x, w1)
      | (Inr rp, w1) \<Rightarrow>
          if \<not> can_fetch e rp ua ''/home/DrugSearch'' then (None, w1)
          else if \<not> can_fetch e rp ua ''/home/Result'' then (None, w1)
          else (case end_page of
                  Some end_page' \<Rightarrow> after_loop (page_loop e rp ua [start_page..end_page'] 0 w1)
                | None \<Rightarrow>
                    (case polite_get e (list_url e start_page) MAX_LIST_RETRIES (trace w1) of
                       (resp, tr) \<Rightarrow>
                         if failed resp then (None, w1\<lparr>trace := tr\<rparr>)
                         else (case detect_and_first e rp ua start_page (the resp)
                                      (w1\<lparr>trace := tr\<rparr>) of
                                 (Inl x, w2) \<Rightarrow> (Some x, w2)
                               | (Inr (last_page, fails), w2) \<Rightarrow>
                                   after_loop
                                     (page_loop e rp ua [start_page + 1..last_page] fails w2)))))"

subsection \<open>Notions used in the statements\<close>

text \<open>An outcome of the kind the retry rule names: status 429, a status from 500 on,
  or a request exception.\<close>

fun transient :: "outcome \<Rightarrow> bool" where
  "transient (Response resp) \<longleftrightarrow> status_code resp = 429 \<or> 500 \<le> status_code resp"
| "transient RequestException \<longleftrightarrow> True"

text \<open>What attempt number \<open>i\<close> on \<open>url\<close> leaves in the trace when its outcome is
  transient, and the trace of the attempts \<open>1\<close> to \<open>k\<close> when all of them are.\<close>

definition failed_attempt :: "string \<Rightarrow> int \<Rightarrow> event list" where
  "failed_attempt url i = [Jitter, Request url, Backoff (backoff_base * of_int i)]"

definition failed_attempts :: "string \<Rightarrow> int \<Rightarrow> event list" where
  "failed_attempts url k = concat (map (failed_attempt url) [1..k])"

text \<open>The URLs requested and the backoff sleeps of a trace, in order.\<close>

fun requests_of :: "event list \<Rightarrow> string list" where
  "requests_of [] = []"
| "requests_of (Request url # tr) = url # requests_of tr"
| "requests_of (ev # tr) = requests_of tr"

fun backoffs_of :: "event list \<Rightarrow> real list" where
  "backoffs_of [] = []"
| "backoffs_of (Backoff d # tr) = d # backoffs_of tr"
| "backoffs_of (ev # tr) = backoffs_of tr"

text \<open>\<^verbatim>\<open>urljoin(base, ref)\<close> raises; the base URL is one on which it raises with every
  reference that is not empty.\<close>

definition join_raises :: "env \<Rightarrow> string \<Rightarrow> string \<Rightarrow> bool" where
  "join_raises e base ref \<longleftrightarrow> base \<noteq> [] \<and> ref \<noteq> [] \<and> (url_error e base \<or> url_error e ref)"

definition base_error :: "env \<Rightarrow> bool" where
  "base_error e \<longleftrightarrow> BASE_URL e \<noteq> [] \<and> url_error e (BASE_URL e)"



subsection \<open>The items of a page, as the specification words them\<close>

text \<open>
  The content that a detail fetch yields: that of a response with status 200 and a
  body that is not empty. The items whose detail path robots.txt allows. The records
  of a page: the items are visited in extraction order; an item whose path is denied
  is skipped, the others are fetched with the detail budget, and an item with content
  gives a record. Then the dictionary in which the records are entered one after
  the other.
\<close>

fun detail_content :: "response option \<Rightarrow> string option" where
  "detail_content None = None"
| "detail_content (Some resp) =
     (if status_code resp = 200 \<and> text_of resp \<noteq> [] then Some (text_of resp) else None)"

definition allowed_items ::
  "env \<Rightarrow> robot_parser \<Rightarrow> string \<Rightarrow> (string \<times> string) list \<Rightarrow> (string \<times> string) list" where
  "allowed_items e rp ua items =
     filter (\<lambda>(reg_no, detail_url). can_fetch e rp ua (urlparse_path e detail_url)) items"

fun visit_items ::
  "env \<Rightarrow> robot_parser \<Rightarrow> string \<Rightarrow> (string \<times> string) list \<Rightarrow> event list \<Rightarrow>
   (exn + (string \<times> string) list) \<times> event list" where
  "visit_items e rp ua [] tr = (Inr [], tr)"
| "visit_items e rp ua ((record_id, locator) # items) tr =
     (if url_error e locator then (Inl ValueError, tr)
      else if \<not> can_fetch e rp ua (urlparse_path e locator) then visit_items e rp ua items tr
      else (case visit_items e rp ua items (snd (polite_get e locator MAX_DETAIL_RETRIES tr)) of
              (Inl x, tr') \<Rightarrow> (Inl x, tr')
            | (Inr records, tr') \<Rightarrow>
                (case detail_content (fst (polite_get e locator MAX_DETAIL_RETRIES tr)) of
                   None \<Rightarrow> (Inr records, tr')
                 | Some content \<Rightarrow> (Inr ((record_id, content) # records), tr'))))"

definition put_all :: "pydict \<Rightarrow> (string \<times> string) list \<Rightarrow> pydict" where
  "put_all m records = foldl (\<lambda>m (record_id, content). AList.update record_id content m) m records"

subsection \<open>The listing, as the specification words it\<close>

text \<open>
  The rows of the results table (none when the document has no such table), the cells
  of a row, the rows that yield an item (at least five cells, a first cell whose
  trimmed text is not empty, an anchor with an \<^verbatim>\<open>href\<close> in the last cell), the
  \<^verbatim>\<open>href\<close> of such a row and its item.
\<close>

definition table_rows :: "node \<Rightarrow> node list" where
  "table_rows doc =
     (case select results_tbody doc of [] \<Rightarrow> [] | tbody # ts \<Rightarrow> select [Sel ''tr'' [] False] tbody)"

definition row_cells :: "node \<Rightarrow> node list" where
  "row_cells tr = find_all ''td'' tr"

definition has_item :: "node \<Rightarrow> bool" where
  "has_item tr \<longleftrightarrow>
     length (row_cells tr) \<ge> 5 \<and> strip (get_text_strip (hd (row_cells tr))) \<noteq> [] \<and>
     select [Sel ''a'' [] True] (last (row_cells tr)) \<noteq> []"

definition row_href :: "node \<Rightarrow> string" where
  "row_href tr = href_of (hd (select [Sel ''a'' [] True] (last (row_cells tr))))"

definition item_of :: "env \<Rightarrow> node \<Rightarrow> string \<times> string" where
  "item_of e tr =
     (strip (get_text_strip (hd (row_cells tr))), urljoin e (BASE_URL e) (row_href tr))"

subsection \<open>The pagination control, as the specification words it\<close>

text \<open>
  The labels of a pagination control that count: those of the anchors that have an
  \<^verbatim>\<open>href\<close>, then the texts of the \<^verbatim>\<open>span\<close> elements; the numbers of the control are
  the values of those that are made of digits. A control is plain when no \<^verbatim>\<open>span\<close>
  after the first is made of digits and every such label is a decimal numeral within
  the limit of \<^verbatim>\<open>int\<close>.
\<close>

definition control_labels :: "node \<Rightarrow> string list" where
  "control_labels ul = map get_text_strip (find_all_href ''a'' ul @ find_all ''span'' ul)"

definition control_numbers :: "node \<Rightarrow> int list" where
  "control_numbers ul = map int_of_str (filter isdigit (control_labels ul))"

definition plain_control :: "node \<Rightarrow> bool" where
  "plain_control ul \<longleftrightarrow>
     list_all (\<lambda>sp. \<not> isdigit (get_text_strip sp)) (tl (find_all ''span'' ul)) \<and>
     list_all (\<lambda>label. isdecimal label \<and> length label \<le> max_str_digits)
       (filter isdigit (control_labels ul))"

subsection \<open>Stub hosts\<close>

text \<open>
  An environment for concrete runs: the base URL has no path, so \<^verbatim>\<open>urljoin\<close> of it
  and a reference that starts with a slash is the concatenation, and the path of such
  a URL is what follows the base up to the query. \<^verbatim>\<open>urlsplit\<close> raises on the
  reference \<^verbatim>\<open>//[\<close>, the one bad reference of the examples.
\<close>

definition stub_env :: "(event list \<Rightarrow> string \<Rightarrow> outcome) \<Rightarrow> (string \<Rightarrow> node) \<Rightarrow> env" where
  "stub_env host doc =
     \<lparr>BASE_URL = ''https://example.com'', session_get = host, soup = doc,
      urljoin = (\<lambda>base ref. base @ ref),
      urlparse_path = (\<lambda>u. takeWhile (\<lambda>c. c \<noteq> CHR ''?'') (drop 19 u)),
      urlsplit_raises = (\<lambda>s. s = ''//['')\<rparr>"

definition reply :: "int \<Rightarrow> string \<Rightarrow> outcome" where
  "reply code body = Response \<lparr>status_code = code, text_of = body\<rparr>"

text \<open>A host that answers 500 to every request, one that answers 600 to every request,
  one that answers 503 to the first two requests and 200 from then on, and one that
  answers 200 to the first request and 500 from then on.\<close>

definition always_500 :: "event list \<Rightarrow> string \<Rightarrow> outcome" where
  "always_500 tr url = reply 500 []"

definition always_600 :: "event list \<Rightarrow> string \<Rightarrow> outcome" where
  "always_600 tr url = reply 600 []"

definition twice_503 :: "event list \<Rightarrow> string \<Rightarrow> outcome" where
  "twice_503 tr url = (if length (requests_of tr) < 2 then reply 503 [] else reply 200 ''ok'')"


definition no_doc :: "string \<Rightarrow> node" where
  "no_doc html = Tag ''[document]'' [] None []"

text \<open>
  A listing document: the results table inside \<^verbatim>\<open>div.table-responsive\<close>, with rows of
  five cells, the registration number in the first and the link in the last.
\<close>

definition cell :: "node list \<Rightarrow> node" where
  "cell ch = Tag ''td'' [] None ch"

definition listing_row :: "string \<Rightarrow> string \<Rightarrow> node" where
  "listing_row reg ref =
     Tag ''tr'' [] None
       [cell [Text reg], cell [Text ''name''], cell [], cell [],
        cell [Tag ''a'' [] (Some ref) [Text ''View'']]]"

definition listing_doc :: "node list \<Rightarrow> node" where
  "listing_doc rows =
     Tag ''[document]'' [] None
       [Tag ''html'' [] None
          [Tag ''body'' [] None
             [Tag ''div'' [''table-responsive''] None
                [Tag ''table'' [''table'', ''s-row''] None [Tag ''tbody'' [] None rows]]]]]"

text \<open>A host with one listing page of two items; the detail page of the first exists,
  that of the second does not. A second host on which both exist.\<close>

definition catalogue_host :: "event list \<Rightarrow> string \<Rightarrow> outcome" where
  "catalogue_host tr url =
     (if url = ''https://example.com/home/DrugSearch?page=1'' then reply 200 ''listing''
      else if url = ''https://example.com/home/Result?drugId=1'' then reply 200 ''detail 1''
      else reply 404 [])"

definition full_host :: "event list \<Rightarrow> string \<Rightarrow> outcome" where
  "full_host tr url =
     (if url = ''https://example.com/home/DrugSearch?page=1'' then reply 200 ''listing''
      else if url = ''https://example.com/home/Result?drugId=1'' then reply 200 ''detail 1''
      else if url = ''https://example.com/home/Result?drugId=2'' then reply 200 ''detail 2''
      else reply 404 [])"

text \<open>A third host, on which the detail page of the second item is answered with
  status 200 and an empty body.\<close>

definition hollow_host :: "event list \<Rightarrow> string \<Rightarrow> outcome" where
  "hollow_host tr url =
     (if url = ''https://example.com/home/DrugSearch?page=1'' then reply 200 ''listing''
      else if url = ''https://example.com/home/Result?drugId=1'' then reply 200 ''detail 1''
      else if url = ''https://example.com/home/Result?drugId=2'' then reply 200 []
      else reply 404 [])"

definition catalogue_doc :: "string \<Rightarrow> node" where
  "catalogue_doc html =
     (if html = ''listing''
      then listing_doc [listing_row ''REG-1'' ''/home/Result?drugId=1'',
                        listing_row ''REG-2'' ''/home/Result?drugId=2'']
      else no_doc html)"

text \<open>A listing whose second row links to a reference that \<^verbatim>\<open>urljoin\<close> cannot split.\<close>

definition broken_doc :: "string \<Rightarrow> node" where
  "broken_doc html =
     (if html = ''listing''
      then listing_doc [listing_row ''REG-1'' ''/home/Result?drugId=1'',
                        listing_row ''REG-2'' ''//['']
      else no_doc html)"

text \<open>The parser after robots.txt was answered with 404, and an empty world.\<close>

definition allow_all_parser :: robot_parser where
  "allow_all_parser = RobotFileParser\<lparr>allow_all := True\<rparr>"

definition empty_world :: world where
  "empty_world = \<lparr>trace = [], files = Map.empty\<rparr>"


text \<open>A listing with a complete row, a row of four cells, a row whose first cell is
  blank and a row whose first cell holds a no-break space.\<close>

definition short_row :: node where
  "short_row =
     Tag ''tr'' [] None
       [cell [Text ''REG-2''], cell [], cell [],
        cell [Tag ''a'' [] (Some ''/home/Result?drugId=2'') [Text ''View'']]]"

definition sample_listing :: "string \<Rightarrow> node" where
  "sample_listing html =
     listing_doc [listing_row ''REG-1'' ''/home/Result?drugId=1'', short_row,
                  listing_row ''  '' ''/home/Result?drugId=3'',
                  listing_row [CHR 0xA0] ''/home/Result?drugId=4'']"

text \<open>Documents that consist of a pagination control: a page rendered as a link, the
  current page rendered as a \<^verbatim>\<open>span\<close>, as the text of its list item, and as an anchor
  without \<^verbatim>\<open>href\<close>, and an ellipsis rendered as a \<^verbatim>\<open>span\<close>.\<close>

definition pager :: "node list \<Rightarrow> string \<Rightarrow> node" where
  "pager entries html = Tag ''[document]'' [] None [Tag ''ul'' [''pagination''] None entries]"

definition page_link :: "string \<Rightarrow> node" where
  "page_link label = Tag ''li'' [] None [Tag ''a'' [] (Some (''?page='' @ label)) [Text label]]"

definition current_span :: "string \<Rightarrow> node" where
  "current_span label = Tag ''li'' [''active''] None [Tag ''span'' [] None [Text label]]"

definition current_text :: "string \<Rightarrow> node" where
  "current_text label = Tag ''li'' [''active''] None [Text label]"

definition current_anchor :: "string \<Rightarrow> node" where
  "current_anchor label = Tag ''li'' [''active''] None [Tag ''a'' [] None [Text label]]"

definition ellipsis :: node where
  "ellipsis = Tag ''li'' [''disabled''] None [Tag ''span'' [] None [Text ''...'']]"

section \<open>Properties\<close>

subsection \<open>Traces\<close>

lemma requests_of_append: "requests_of (xs @ ys) = requests_of xs @ requests_of ys"
  by (induction xs rule: requests_of.induct) auto

lemma backoffs_of_append: "backoffs_of (xs @ ys) = backoffs_of xs @ backoffs_of ys"
  by (induction xs rule: backoffs_of.induct) auto

lemma failed_attempts_0: "failed_attempts url 0 = []"
  by (simp add: failed_attempts_def)

lemma failed_attempts_neg: "k < 0 \<Longrightarrow> failed_attempts url k = []"
  by (simp add: failed_attempts_def)

lemma failed_attempts_step:
  "0 \<le> k \<Longrightarrow> failed_attempts url (k + 1) = failed_attempts url k @ failed_attempt url (k + 1)"
  by (simp add: failed_attempts_def upto_rec2)

lemma requests_failed_attempts:
  "requests_of (failed_attempts url k) = replicate (nat k) url"
proof (cases "0 \<le> k")
  case True
  then show ?thesis
  proof (induction k rule: int_ge_induct)
    case base
    then show ?case by (simp add: failed_attempts_0)
  next
    case (step i)
    then show ?case
      by (simp add: failed_attempts_step requests_of_append failed_attempt_def nat_add_distrib
          replicate_append_same)
  qed
next
  case False
  then show ?thesis by (simp add: failed_attempts_def)
qed

lemma backoffs_failed_attempts:
  "backoffs_of (failed_attempts url k) = map (\<lambda>i. backoff_base * of_int i) [1..k]"
proof (cases "0 \<le> k")
  case True
  then show ?thesis
  proof (induction k rule: int_ge_induct)
    case base
    then show ?case by (simp add: failed_attempts_0)
  next
    case (step i)
    then show ?case
      by (simp add: failed_attempts_step backoffs_of_append failed_attempt_def upto_rec2)
  qed
next
  case False
  then show ?thesis by (simp add: failed_attempts_def)
qed

subsection \<open>The retrying GET\<close>

lemma polite_get_loop_transient:
  "transient (session_get e (tr @ [Jitter]) url) \<Longrightarrow>
   polite_get_loop e url (i # rest) tr = polite_get_loop e url rest (tr @ failed_attempt url i)"
  by (cases "session_get e (tr @ [Jitter]) url") (simp_all add: failed_attempt_def retry_status_def)

lemma polite_get_loop_final:
  "session_get e (tr @ [Jitter]) url = Response resp \<Longrightarrow> status_code resp \<noteq> 429 \<Longrightarrow>
   status_code resp < 500 \<Longrightarrow>
   polite_get_loop e url (i # rest) tr = (Some resp, tr @ [Jitter, Request url])"
  by (simp add: retry_status_def)

text \<open>While the attempts are transient, the loop runs through the attempt numbers and
  leaves one politeness sleep, one request and one backoff sleep for each.\<close>

lemma polite_get_loop_prefix:
  assumes "0 \<le> k"
    and "\<And>j. 0 \<le> j \<Longrightarrow> j < k \<Longrightarrow>
           transient (session_get e (tr @ failed_attempts url j @ [Jitter]) url)"
  shows "polite_get_loop e url ([1..k] @ ys) tr =
         polite_get_loop e url ys (tr @ failed_attempts url k)"
  using assms
proof (induction k arbitrary: ys rule: int_ge_induct)
  case base
  then show ?case by (simp add: failed_attempts_0)
next
  case (step i)
  have "polite_get_loop e url ([1..i + 1] @ ys) tr =
        polite_get_loop e url ([1..i] @ ((i + 1) # ys)) tr"
    using step.hyps by (simp add: upto_rec2)
  also have "\<dots> = polite_get_loop e url ((i + 1) # ys) (tr @ failed_attempts url i)"
    using step.IH [of "(i + 1) # ys"] step.prems by simp
  also have "\<dots> = polite_get_loop e url ys ((tr @ failed_attempts url i) @ failed_attempt url (i + 1))"
    using step.prems [of i] step.hyps by (intro polite_get_loop_transient) simp
  finally show ?case
    using step.hyps by (simp add: failed_attempts_step)
qed

lemma upto_split_at:
  assumes "0 \<le> k" and "k < n"
  shows "[1..n] = [1..k] @ ((k + 1) # [k + 2..n])"
proof (cases "k = 0")
  case True
  then show ?thesis
    using assms(2) upto_rec1 [of 1 n] by simp
next
  case False
  then show ?thesis
    using assms upto_split2 [of 1 k n] upto_rec1 [of "k + 1" n]
    by (simp add: add.commute)
qed

text \<open>
  C4, as the code has it. Let the attempts \<open>1\<close> to \<open>k\<close> of \<^verbatim>\<open>polite_get\<close> on a URL yield
  status 429, a status of 500 or more, or a request exception, and let attempt
  \<open>k + 1\<close>, within the budget, get a response with a status below 500 other than 429.
  Then every attempt \<open>i\<close> up to \<open>k\<close> was followed by a sleep of \<open>backoff_base * i\<close>
  seconds and by the next attempt, and the response of attempt \<open>k + 1\<close> is returned
  at once: the trace ends with its request, \<open>k + 1\<close> requests were made and the
  backoff sleeps are \<open>backoff_base * 1, \<dots>, backoff_base * k\<close>.
\<close>

theorem polite_get_retry:
  assumes "0 \<le> k" and "k < retries"
    and "\<And>j. 0 \<le> j \<Longrightarrow> j < k \<Longrightarrow>
           transient (session_get e (tr @ failed_attempts url j @ [Jitter]) url)"
    and "session_get e (tr @ failed_attempts url k @ [Jitter]) url = Response resp"
    and "status_code resp \<noteq> 429" and "status_code resp < 500"
  shows "polite_get e url retries tr =
           (Some resp, tr @ failed_attempts url k @ [Jitter, Request url]) \<and>
         requests_of (failed_attempts url k @ [Jitter, Request url]) = replicate (nat k + 1) url \<and>
         backoffs_of (failed_attempts url k @ [Jitter, Request url]) =
           map (\<lambda>i. backoff_base * of_int i) [1..k]"
proof -
  have "polite_get e url retries tr =
        polite_get_loop e url ((k + 1) # [k + 2..retries]) (tr @ failed_attempts url k)"
    unfolding polite_get_def upto_split_at [OF assms(1,2)]
    using assms(1,3) by (rule polite_get_loop_prefix)
  also have "\<dots> = (Some resp, (tr @ failed_attempts url k) @ [Jitter, Request url])"
    using assms(4,5,6) by (intro polite_get_loop_final) simp_all
  finally have "polite_get e url retries tr =
      (Some resp, tr @ failed_attempts url k @ [Jitter, Request url])"
    by simp
  then show ?thesis
    by (simp add: requests_of_append backoffs_of_append requests_failed_attempts
        backoffs_failed_attempts replicate_append_same)
qed

theorem polite_get_retry_witness:
  "polite_get (stub_env twice_503 no_doc) ''u'' 3 [] =
     (Some \<lparr>status_code = 200, text_of = ''ok''\<rparr>,
      [Jitter, Request ''u'', Backoff (3 / 2), Jitter, Request ''u'', Backoff 3,
       Jitter, Request ''u'']) \<and>
   backoffs_of [Jitter, Request ''u'', Backoff (3 / 2), Jitter, Request ''u'', Backoff 3,
       Jitter, Request ''u''] = [backoff_base * 1, backoff_base * 2]"
proof -
  let ?e = "stub_env twice_503 no_doc"
  have fa: "failed_attempts ''u'' 2 =
      [Jitter, Request ''u'', Backoff (3 / 2), Jitter, Request ''u'', Backoff 3]"
    by (simp add: failed_attempts_def failed_attempt_def backoff_base_def upto.simps)
  have h3: "\<And>j. 0 \<le> j \<Longrightarrow> j < 2 \<Longrightarrow>
      transient (session_get ?e ([] @ failed_attempts ''u'' j @ [Jitter]) ''u'')"
  proof -
    fix j :: int
    assume "0 \<le> j" "j < 2"
    then have "j = 0 \<or> j = 1" by auto
    then show "transient (session_get ?e ([] @ failed_attempts ''u'' j @ [Jitter]) ''u'')"
      by (auto simp: stub_env_def twice_503_def reply_def
          failed_attempts_def failed_attempt_def)
  qed
  have h4: "session_get ?e ([] @ failed_attempts ''u'' 2 @ [Jitter]) ''u'' =
      Response \<lparr>status_code = 200, text_of = ''ok''\<rparr>"
    by (simp add: fa stub_env_def twice_503_def reply_def)
  show ?thesis
    using polite_get_retry [of 2 3 ?e "[]" "''u''", OF _ _ h3 h4]
    by (simp add: fa backoff_base_def)
qed

text \<open>
  A status of 600 or more is neither 429 nor a 5xx status, and it is not returned: a
  host that answers 600 to every request makes \<^verbatim>\<open>polite_get\<close> with budget 3 give \<^verbatim>\<open>None\<close>
  after three requests and three backoff sleeps.
\<close>

theorem polite_get_retry_counterexample:
  "(600 :: int) \<noteq> 429 \<and> \<not> (500 \<le> (600 :: int) \<and> (600 :: int) \<le> 599) \<and>
   session_get (stub_env always_600 no_doc) [Jitter] ''u'' =
     Response \<lparr>status_code = 600, text_of = []\<rparr> \<and>
   polite_get (stub_env always_600 no_doc) ''u'' 3 [] =
     (None, [Jitter, Request ''u'', Backoff (3 / 2), Jitter, Request ''u'', Backoff 3,
             Jitter, Request ''u'', Backoff (9 / 2)])"
  by (simp add: polite_get_def upto.simps stub_env_def always_600_def reply_def retry_status_def
      backoff_base_def)

text \<open>
  C5. If each of the attempts \<open>1\<close> to \<open>retries\<close> of \<^verbatim>\<open>polite_get\<close> on a URL is transient,
  the result is \<^verbatim>\<open>None\<close>, and the trace holds exactly \<open>retries\<close> requests of that URL
  (none for a budget below 1), each followed by its backoff sleep.
\<close>

theorem polite_get_exhausted:
  assumes "\<And>j. 0 \<le> j \<Longrightarrow> j < retries \<Longrightarrow>
           transient (session_get e (tr @ failed_attempts url j @ [Jitter]) url)"
  shows "polite_get e url retries tr = (None, tr @ failed_attempts url retries) \<and>
         requests_of (failed_attempts url retries) = replicate (nat retries) url"
proof (cases "0 \<le> retries")
  case True
  then have "polite_get_loop e url ([1..retries] @ []) tr =
      polite_get_loop e url [] (tr @ failed_attempts url retries)"
    using assms by (rule polite_get_loop_prefix)
  then show ?thesis
    by (simp add: polite_get_def requests_failed_attempts)
next
  case False
  then show ?thesis
    by (simp add: polite_get_def failed_attempts_def)
qed

theorem polite_get_exhausted_witness:
  "polite_get (stub_env always_500 no_doc) ''u'' 3 [] =
     (None, [Jitter, Request ''u'', Backoff (3 / 2), Jitter, Request ''u'', Backoff 3,
             Jitter, Request ''u'', Backoff (9 / 2)]) \<and>
   requests_of [Jitter, Request ''u'', Backoff (3 / 2), Jitter, Request ''u'', Backoff 3,
             Jitter, Request ''u'', Backoff (9 / 2)] = [''u'', ''u'', ''u'']"
proof -
  let ?e = "stub_env always_500 no_doc"
  have h: "\<And>j. 0 \<le> j \<Longrightarrow> j < 3 \<Longrightarrow>
      transient (session_get ?e ([] @ failed_attempts ''u'' j @ [Jitter]) ''u'')"
    by (simp add: stub_env_def always_500_def reply_def)
  have fa: "failed_attempts ''u'' 3 =
      [Jitter, Request ''u'', Backoff (3 / 2), Jitter, Request ''u'', Backoff 3,
       Jitter, Request ''u'', Backoff (9 / 2)]"
    by (simp add: failed_attempts_def failed_attempt_def backoff_base_def upto.simps)
  show ?thesis
    using polite_get_exhausted [of 3 ?e "[]" "''u''", OF h]
    by (simp add: fa)
qed

subsection \<open>Library calls\<close>

lemma literal_paths [simp]:
  "\<not> may_have_netloc ''/robots.txt''" "\<not> may_have_netloc ''/home/DrugSearch''"
  "\<not> may_have_netloc ''/home/Result''"
  by (simp_all add: may_have_netloc_def)

lemma call_urljoin_eq:
  "call_urljoin e base ref =
     (if join_raises e base ref then Inl ValueError else Inr (urljoin e base ref))"
  by (simp add: call_urljoin_def join_raises_def)

lemma join_raises_plain:
  "\<not> may_have_netloc ref \<Longrightarrow> ref \<noteq> [] \<Longrightarrow> join_raises e (BASE_URL e) ref = base_error e"
  by (auto simp: join_raises_def base_error_def url_error_def)

lemma failed_iff: "failed r \<longleftrightarrow> r = None \<or> status_code (the r) \<noteq> 200"
  by (cases r) (auto simp: ok_def)

lemma can_fetch_allow_all [simp]: "can_fetch e allow_all_parser ua p"
  by (simp add: can_fetch_def rp_can_fetch_def allow_all_parser_def RobotFileParser_def
      split: sum.splits)

lemma can_fetch_unread:
  "can_fetch e RobotFileParser ua p \<longleftrightarrow> \<not> startswith p ''http'' \<and> join_raises e (BASE_URL e) p"
  by (simp add: can_fetch_def rp_can_fetch_def RobotFileParser_def call_urljoin_eq)

subsection \<open>Requests of the page processor\<close>

lemma polite_get_loop_requests:
  "\<exists>n. n \<le> length xs \<and> (xs \<noteq> [] \<longrightarrow> 1 \<le> n) \<and>
       requests_of (snd (polite_get_loop e url xs tr)) = requests_of tr @ replicate n url"
proof (induction xs arbitrary: tr)
  case Nil
  then show ?case by simp
next
  case (Cons x xs)
  let ?tr' = "tr @ [Jitter, Request url, Backoff (backoff_base * of_int x)]"
  obtain n where n: "n \<le> length xs"
    "requests_of (snd (polite_get_loop e url xs ?tr')) = requests_of ?tr' @ replicate n url"
    using Cons.IH [of ?tr'] by blast
  have again: "requests_of (snd (polite_get_loop e url xs ?tr')) =
      requests_of tr @ replicate (Suc n) url"
    using n(2) by (simp add: requests_of_append replicate_append_same)
  show ?case
  proof (cases "session_get e (tr @ [Jitter]) url")
    case RequestException
    then show ?thesis
      using n(1) again by (intro exI [of _ "Suc n"]) simp
  next
    case (Response resp)
    show ?thesis
    proof (cases "retry_status resp")
      case True
      then show ?thesis
        using Response n(1) again by (intro exI [of _ "Suc n"]) simp
    next
      case False
      then show ?thesis
        using Response by (intro exI [of _ 1]) (simp add: requests_of_append)
    qed
  qed
qed

lemma polite_get_requests:
  assumes "1 \<le> retries"
  shows "\<exists>n. 1 \<le> n \<and> n \<le> nat retries \<and>
       requests_of (snd (polite_get e url retries tr)) = requests_of tr @ replicate n url"
proof -
  have ne: "[1..retries] \<noteq> []" using assms by (simp add: upto.simps)
  show ?thesis
    using polite_get_loop_requests [of "[1..retries]" e url tr] ne assms
    by (auto simp: polite_get_def)
qed

lemma fetch_detail_html_requests:
  "\<exists>n. 1 \<le> n \<and> n \<le> 3 \<and>
       requests_of (snd (fetch_detail_html e url tr)) = requests_of tr @ replicate n url"
  using polite_get_requests [of MAX_DETAIL_RETRIES e url tr]
  by (auto simp: fetch_detail_html_def MAX_DETAIL_RETRIES_def split: prod.splits)

lemma details_loop_requests:
  "list_all (\<lambda>(reg_no, detail_url). \<not> url_error e detail_url) items \<Longrightarrow>
   \<exists>ns. length ns = length (allowed_items e rp ua items) \<and> (\<forall>n\<in>set ns. 1 \<le> n \<and> n \<le> 3) \<and>
     requests_of (snd (details_loop e rp ua items m tr)) =
       requests_of tr @ concat (map2 (\<lambda>(reg_no, detail_url) n. replicate n detail_url) (allowed_items e rp ua items) ns)"
proof (induction items arbitrary: m tr)
  case Nil
  then show ?case by (simp add: allowed_items_def)
next
  case (Cons item items)
  obtain reg_no detail_url where item: "item = (reg_no, detail_url)" by (cases item)
  have good: "call_urlparse_path e detail_url = Inr (urlparse_path e detail_url)"
    and rest: "list_all (\<lambda>(reg_no, detail_url). \<not> url_error e detail_url) items"
    using Cons.prems item by (simp_all add: call_urlparse_path_def)
  show ?case
  proof (cases "can_fetch e rp ua (urlparse_path e detail_url)")
    case False
    then show ?thesis
      using Cons.IH [OF rest, of m tr] item good by (simp add: allowed_items_def)
  next
    case True
    obtain html tr' where f: "fetch_detail_html e detail_url tr = (html, tr')"
      by (cases "fetch_detail_html e detail_url tr")
    obtain n where n: "1 \<le> n" "n \<le> 3"
      "requests_of tr' = requests_of tr @ replicate n detail_url"
      using fetch_detail_html_requests [of e detail_url tr] f by auto
    define m' where "m' = (case html of None \<Rightarrow> m | Some h \<Rightarrow> if h \<noteq> [] then AList.update reg_no h m else m)"
    have step: "details_loop e rp ua (item # items) m tr = details_loop e rp ua items m' tr'"
      using True f item good by (simp add: m'_def split: option.splits)
    obtain ns where ns: "length ns = length (allowed_items e rp ua items)"
      "\<forall>n\<in>set ns. 1 \<le> n \<and> n \<le> 3"
      "requests_of (snd (details_loop e rp ua items m' tr')) =
         requests_of tr' @ concat (map2 (\<lambda>(reg_no, detail_url) n. replicate n detail_url) (allowed_items e rp ua items) ns)"
      using Cons.IH [OF rest, of m' tr'] by blast
    have al: "allowed_items e rp ua (item # items) = item # allowed_items e rp ua items"
      using True item by (simp add: allowed_items_def)
    show ?thesis
      using ns n step al item
      by (intro exI [of _ "n # ns"]) simp
  qed
qed

subsection \<open>The dictionary of a page\<close>

lemma put_all_Cons:
  "put_all m ((record_id, content) # records) = put_all (AList.update record_id content m) records"
  by (simp add: put_all_def)

lemma update_new: "k \<notin> fst ` set m \<Longrightarrow> AList.update k v m = m @ [(k, v)]"
  by (induction m) auto

lemma put_all_distinct:
  "distinct (map fst (m @ records)) \<Longrightarrow> put_all m records = m @ records"
proof (induction records arbitrary: m)
  case Nil
  then show ?case by (simp add: put_all_def)
next
  case (Cons r records)
  obtain k v where r: "r = (k, v)" by (cases r)
  have new: "k \<notin> fst ` set m" using Cons.prems r by auto
  have "distinct (map fst ((m @ [(k, v)]) @ records))" using Cons.prems r by simp
  then have "put_all (m @ [(k, v)]) records = (m @ [(k, v)]) @ records" by (rule Cons.IH)
  then show ?case by (simp add: r put_all_Cons update_new [OF new])
qed

lemma put_all_keys: "fst ` set (put_all m records) = fst ` set m \<union> fst ` set records"
proof (induction records arbitrary: m)
  case Nil
  then show ?case by (simp add: put_all_def)
next
  case (Cons r records)
  obtain k v where r: "r = (k, v)" by (cases r)
  show ?case
    using Cons.IH [of "AList.update k v m"]
    by (auto simp: r put_all_Cons dom_update)
qed

lemma put_all_keys_distinct: "distinct (map fst m) \<Longrightarrow> distinct (map fst (put_all m records))"
proof (induction records arbitrary: m)
  case Nil
  then show ?case by (simp add: put_all_def)
next
  case (Cons r records)
  obtain k v where r: "r = (k, v)" by (cases r)
  show ?case
    using Cons.IH [of "AList.update k v m"] Cons.prems
    by (simp add: r put_all_Cons distinct_update)
qed

lemma fetch_detail_content:
  "fetch_detail_html e url tr = (html, tr') \<Longrightarrow>
   tr' = snd (polite_get e url MAX_DETAIL_RETRIES tr) \<and>
   (case html of None \<Rightarrow> None | Some h \<Rightarrow> if h \<noteq> [] then Some h else None) =
     detail_content (fst (polite_get e url MAX_DETAIL_RETRIES tr))"
  by (cases "fst (polite_get e url MAX_DETAIL_RETRIES tr)")
     (auto simp: fetch_detail_html_def ok_def split: prod.splits)

lemma details_loop_visit:
  "details_loop e rp ua items m tr =
     (case visit_items e rp ua items tr of
        (Inl x, tr') \<Rightarrow> (Inl x, tr')
      | (Inr records, tr') \<Rightarrow> (Inr (put_all m records), tr'))"
proof (induction items arbitrary: m tr)
  case Nil
  then show ?case by (simp add: put_all_def)
next
  case (Cons item items)
  obtain reg_no detail_url where item: "item = (reg_no, detail_url)" by (cases item)
  show ?case
  proof (cases "url_error e detail_url")
    case True
    then show ?thesis by (simp add: item call_urlparse_path_def)
  next
    case False
    then have good: "call_urlparse_path e detail_url = Inr (urlparse_path e detail_url)"
      by (simp add: call_urlparse_path_def)
    show ?thesis
    proof (cases "can_fetch e rp ua (urlparse_path e detail_url)")
      case denied: False
      then show ?thesis
        using Cons.IH [of m tr] False good by (simp add: item)
    next
      case True
      obtain html tr' where f: "fetch_detail_html e detail_url tr = (html, tr')"
        by (cases "fetch_detail_html e detail_url tr")
      note fc = fetch_detail_content [OF f]
      show ?thesis
      proof (cases "detail_content (fst (polite_get e detail_url MAX_DETAIL_RETRIES tr))")
        case None
        then have "details_loop e rp ua (item # items) m tr = details_loop e rp ua items m tr'"
          using fc f True good by (auto simp: item split: option.splits if_splits)
        then show ?thesis
          using Cons.IH [of m tr'] fc None True False
          by (simp add: item split: prod.splits sum.splits)
      next
        case (Some content)
        then have h: "html = Some content" "content \<noteq> []"
          using fc by (auto split: option.splits if_splits)
        then have "details_loop e rp ua (item # items) m tr =
            details_loop e rp ua items (AList.update reg_no content m) tr'"
          using f True good by (simp add: item)
        then show ?thesis
          using Cons.IH [of "AList.update reg_no content m" tr'] fc Some True False
          by (simp add: item put_all_Cons split: prod.splits sum.splits)
      qed
    qed
  qed
qed


lemma put_all_lookup:
  "map_of (put_all m records) k =
     (case map_of (rev records) k of Some v \<Rightarrow> Some v | None \<Rightarrow> map_of m k)"
proof (induction records arbitrary: m)
  case Nil
  then show ?case by (simp add: put_all_def)
next
  case (Cons r records)
  obtain k' v' where r: "r = (k', v')" by (cases r)
  show ?case
    using Cons.IH [of "AList.update k' v' m"]
    by (simp add: r put_all_Cons update_conv' map_add_def split: option.splits)
qed

lemma visit_items_requests:
  "list_all (\<lambda>(record_id, locator). \<not> url_error e locator) items \<Longrightarrow>
   \<exists>ns. length ns = length (allowed_items e rp ua items) \<and> (\<forall>n\<in>set ns. 1 \<le> n \<and> n \<le> 3) \<and>
     requests_of (snd (visit_items e rp ua items tr)) =
       requests_of tr @
       concat (map2 (\<lambda>(record_id, locator) n. replicate n locator) (allowed_items e rp ua items) ns)"
  using details_loop_requests [of e items rp ua "[]" tr]
  by (simp add: details_loop_visit split: prod.splits sum.splits)

subsection \<open>One listing page\<close>

lemma list_url_1: "list_url (stub_env h d) 1 = ''https://example.com/home/DrugSearch?page=1''"
  by (simp add: list_url_def stub_env_def rstrip_slash_def str_int_def)




lemma process_one_page_listed:
  assumes "can_fetch e rp ua ''/home/DrugSearch''"
    and "polite_get e (list_url e page_index) MAX_LIST_RETRIES (trace w) = (Some resp, tr)"
    and "status_code resp = 200"
  shows "process_one_page e rp ua page_index w =
           (case parse_listing_for_items e (text_of resp) of
              Inl x \<Rightarrow> (Inl x, w\<lparr>trace := tr\<rparr>)
            | Inr items \<Rightarrow>
                (case visit_items e rp ua items tr of
                   (Inl x, tr') \<Rightarrow> (Inl x, w\<lparr>trace := tr'\<rparr>)
                 | (Inr records, tr') \<Rightarrow>
                     (Inr True, w\<lparr>trace := tr', files := (files w)(page_index \<mapsto> put_all [] records)\<rparr>)))"
proof -
  have ok: "\<not> failed (Some resp)"
    using assms(3) by (simp add: ok_def)
  show ?thesis
    using assms(1,2) ok
    by (simp add: process_one_page_def save_page_json_def details_loop_visit
        split: prod.splits sum.splits)
qed

text \<open>
  C7, on the code. Let robots.txt allow the listing path and let the listing
  fetch return status 200. If the extraction of the items raises, the exception leaves
  \<^verbatim>\<open>process_one_page\<close> and nothing is written; so it is when \<^verbatim>\<open>urlparse\<close> raises on the
  locator of an item. Otherwise the items are visited in extraction order, the
  records of the visit are entered into a dictionary one after the other, that
  dictionary is written as the file of the page (also when it is empty) and the result
  is \<^verbatim>\<open>True\<close>, whatever happened to the single items: an item whose path is denied is
  skipped, an item whose fetch gives no response, a status other than 200 or an empty
  body gives no record, an item with status 200 and content gives a record. When
  the record ids differ, the dictionary is the sequence of the records; in general it
  has one entry per id, with the content of the last record of that id. When no
  locator makes \<^verbatim>\<open>urlparse\<close> raise, the detail requests are made in extraction order,
  one to three for every item whose path is allowed and none for the others.
\<close>

theorem process_one_page_details:
  assumes "can_fetch e rp ua ''/home/DrugSearch''"
    and "polite_get e (list_url e page_index) MAX_LIST_RETRIES (trace w) = (Some resp, tr)"
    and "status_code resp = 200"
  shows "process_one_page e rp ua page_index w =
           (case parse_listing_for_items e (text_of resp) of
              Inl x \<Rightarrow> (Inl x, w\<lparr>trace := tr\<rparr>)
            | Inr items \<Rightarrow>
                (case visit_items e rp ua items tr of
                   (Inl x, tr') \<Rightarrow> (Inl x, w\<lparr>trace := tr'\<rparr>)
                 | (Inr records, tr') \<Rightarrow>
                     (Inr True, w\<lparr>trace := tr', files := (files w)(page_index \<mapsto> put_all [] records)\<rparr>))) \<and>
         (distinct (map fst records) \<longrightarrow> put_all [] records = records) \<and>
         distinct (map fst (put_all [] records)) \<and>
         map_of (put_all [] records) = map_of (rev records) \<and>
         (list_all (\<lambda>(record_id, locator). \<not> url_error e locator) items \<longrightarrow>
            (\<exists>ns. length ns = length (allowed_items e rp ua items) \<and>
               (\<forall>n\<in>set ns. 1 \<le> n \<and> n \<le> 3) \<and>
               requests_of (snd (visit_items e rp ua items t)) =
                 requests_of t @
                 concat (map2 (\<lambda>(record_id, locator) n. replicate n locator)
                           (allowed_items e rp ua items) ns)))"
proof -
  have lookup: "map_of (put_all [] records) = map_of (rev records)"
    by (rule ext) (simp add: put_all_lookup split: option.splits)
  have keys: "distinct (map fst (put_all [] records))"
    by (rule put_all_keys_distinct) simp
  have plain: "distinct (map fst records) \<longrightarrow> put_all [] records = records"
    using put_all_distinct [of "[]" records] by simp
  show ?thesis
    using process_one_page_listed [OF assms] lookup keys plain
      visit_items_requests [of e items rp ua t]
    by blast
qed

lemma catalogue_items:
  "parse_listing_for_items (stub_env h catalogue_doc) ''listing'' =
     Inr [(''REG-1'', ''https://example.com/home/Result?drugId=1''),
          (''REG-2'', ''https://example.com/home/Result?drugId=2'')]"
  by (simp add: parse_listing_for_items_def stub_env_def catalogue_doc_def listing_doc_def
      listing_row_def cell_def select_one_def select_def results_tbody_def row_item_def
      find_all_def get_text_strip_def strip_def isspace_def call_urljoin_def url_error_def)

lemma broken_items:
  "parse_listing_for_items (stub_env h broken_doc) ''listing'' = Inl ValueError"
  by (simp add: parse_listing_for_items_def stub_env_def broken_doc_def listing_doc_def
      listing_row_def cell_def select_one_def select_def results_tbody_def row_item_def
      find_all_def get_text_strip_def strip_def isspace_def call_urljoin_def url_error_def
      may_have_netloc_def)

lemma catalogue_listing:
  "polite_get (stub_env catalogue_host d) ''https://example.com/home/DrugSearch?page=1'' 3 [] =
     (Some \<lparr>status_code = 200, text_of = ''listing''\<rparr>,
      [Jitter, Request ''https://example.com/home/DrugSearch?page=1''])"
  "polite_get (stub_env full_host d) ''https://example.com/home/DrugSearch?page=1'' 3 [] =
     (Some \<lparr>status_code = 200, text_of = ''listing''\<rparr>,
      [Jitter, Request ''https://example.com/home/DrugSearch?page=1''])"
  "polite_get (stub_env hollow_host d) ''https://example.com/home/DrugSearch?page=1'' 3 [] =
     (Some \<lparr>status_code = 200, text_of = ''listing''\<rparr>,
      [Jitter, Request ''https://example.com/home/DrugSearch?page=1''])"
  by (simp_all add: polite_get_def upto.simps stub_env_def catalogue_host_def full_host_def
      hollow_host_def reply_def retry_status_def)

lemma catalogue_visit:
  "visit_items (stub_env catalogue_host d) allow_all_parser ''ua''
     [(''REG-1'', ''https://example.com/home/Result?drugId=1''),
      (''REG-2'', ''https://example.com/home/Result?drugId=2'')]
     [Jitter, Request ''https://example.com/home/DrugSearch?page=1''] =
   (Inr [(''REG-1'', ''detail 1'')],
    [Jitter, Request ''https://example.com/home/DrugSearch?page=1'',
     Jitter, Request ''https://example.com/home/Result?drugId=1'',
     Jitter, Request ''https://example.com/home/Result?drugId=2''])"
  by (simp add: MAX_DETAIL_RETRIES_def polite_get_def upto.simps url_error_def
      stub_env_def catalogue_host_def reply_def retry_status_def)

lemma full_visit:
  "visit_items (stub_env full_host d) allow_all_parser ''ua''
     [(''REG-1'', ''https://example.com/home/Result?drugId=1''),
      (''REG-2'', ''https://example.com/home/Result?drugId=2'')]
     [Jitter, Request ''https://example.com/home/DrugSearch?page=1''] =
   (Inr [(''REG-1'', ''detail 1''), (''REG-2'', ''detail 2'')],
    [Jitter, Request ''https://example.com/home/DrugSearch?page=1'',
     Jitter, Request ''https://example.com/home/Result?drugId=1'',
     Jitter, Request ''https://example.com/home/Result?drugId=2''])"
  by (simp add: MAX_DETAIL_RETRIES_def polite_get_def upto.simps url_error_def
      stub_env_def full_host_def reply_def retry_status_def)

lemma hollow_visit:
  "visit_items (stub_env hollow_host d) allow_all_parser ''ua''
     [(''REG-1'', ''https://example.com/home/Result?drugId=1''),
      (''REG-2'', ''https://example.com/home/Result?drugId=2'')]
     [Jitter, Request ''https://example.com/home/DrugSearch?page=1''] =
   (Inr [(''REG-1'', ''detail 1'')],
    [Jitter, Request ''https://example.com/home/DrugSearch?page=1'',
     Jitter, Request ''https://example.com/home/Result?drugId=1'',
     Jitter, Request ''https://example.com/home/Result?drugId=2''])"
  by (simp add: MAX_DETAIL_RETRIES_def polite_get_def upto.simps url_error_def
      stub_env_def hollow_host_def reply_def retry_status_def)

lemma put_all_two:
  "put_all [] [(''REG-1'', a)] = [(''REG-1'', a)]"
  "put_all [] [(''REG-1'', a), (''REG-2'', b)] = [(''REG-1'', a), (''REG-2'', b)]"
  by (simp_all add: put_all_def)

theorem process_one_page_details_witness:
  "process_one_page (stub_env full_host catalogue_doc) allow_all_parser ''ua'' 1 empty_world =
     (Inr True,
      \<lparr>trace = [Jitter, Request ''https://example.com/home/DrugSearch?page=1'',
                Jitter, Request ''https://example.com/home/Result?drugId=1'',
                Jitter, Request ''https://example.com/home/Result?drugId=2''],
       files = [1 \<mapsto> [(''REG-1'', ''detail 1''), (''REG-2'', ''detail 2'')]]\<rparr>) \<and>
   process_one_page (stub_env catalogue_host catalogue_doc) allow_all_parser ''ua'' 1 empty_world =
     (Inr True,
      \<lparr>trace = [Jitter, Request ''https://example.com/home/DrugSearch?page=1'',
                Jitter, Request ''https://example.com/home/Result?drugId=1'',
                Jitter, Request ''https://example.com/home/Result?drugId=2''],
       files = [1 \<mapsto> [(''REG-1'', ''detail 1'')]]\<rparr>) \<and>
   process_one_page (stub_env hollow_host catalogue_doc) allow_all_parser ''ua'' 1 empty_world =
     (Inr True,
      \<lparr>trace = [Jitter, Request ''https://example.com/home/DrugSearch?page=1'',
                Jitter, Request ''https://example.com/home/Result?drugId=1'',
                Jitter, Request ''https://example.com/home/Result?drugId=2''],
       files = [1 \<mapsto> [(''REG-1'', ''detail 1'')]]\<rparr>) \<and>
   process_one_page (stub_env full_host broken_doc) allow_all_parser ''ua'' 1 empty_world =
     (Inl ValueError,
      \<lparr>trace = [Jitter, Request ''https://example.com/home/DrugSearch?page=1''],
       files = Map.empty\<rparr>)"
proof -
  have h1: "can_fetch e allow_all_parser ''ua'' ''/home/DrugSearch''" for e
    by simp
  have h3: "status_code \<lparr>status_code = 200, text_of = ''listing''\<rparr> = 200"
    by simp
  have full: "polite_get (stub_env full_host d) (list_url (stub_env full_host d) 1)
        MAX_LIST_RETRIES (trace empty_world) =
      (Some \<lparr>status_code = 200, text_of = ''listing''\<rparr>,
       [Jitter, Request ''https://example.com/home/DrugSearch?page=1''])" for d
    by (simp add: list_url_1 MAX_LIST_RETRIES_def empty_world_def catalogue_listing)
  have cat: "polite_get (stub_env catalogue_host d) (list_url (stub_env catalogue_host d) 1)
        MAX_LIST_RETRIES (trace empty_world) =
      (Some \<lparr>status_code = 200, text_of = ''listing''\<rparr>,
       [Jitter, Request ''https://example.com/home/DrugSearch?page=1''])" for d
    by (simp add: list_url_1 MAX_LIST_RETRIES_def empty_world_def catalogue_listing)
  have hol: "polite_get (stub_env hollow_host d) (list_url (stub_env hollow_host d) 1)
        MAX_LIST_RETRIES (trace empty_world) =
      (Some \<lparr>status_code = 200, text_of = ''listing''\<rparr>,
       [Jitter, Request ''https://example.com/home/DrugSearch?page=1''])" for d
    by (simp add: list_url_1 MAX_LIST_RETRIES_def empty_world_def catalogue_listing)
  have a: "process_one_page (stub_env full_host catalogue_doc) allow_all_parser ''ua'' 1 empty_world =
     (Inr True,
      \<lparr>trace = [Jitter, Request ''https://example.com/home/DrugSearch?page=1'',
                Jitter, Request ''https://example.com/home/Result?drugId=1'',
                Jitter, Request ''https://example.com/home/Result?drugId=2''],
       files = [1 \<mapsto> [(''REG-1'', ''detail 1''), (''REG-2'', ''detail 2'')]]\<rparr>)"
    using process_one_page_details [OF h1 full [of catalogue_doc] h3, THEN conjunct1]
    unfolding response.simps catalogue_items sum.case full_visit
    by (simp add: put_all_two empty_world_def)
  have b: "process_one_page (stub_env catalogue_host catalogue_doc) allow_all_parser ''ua'' 1 empty_world =
     (Inr True,
      \<lparr>trace = [Jitter, Request ''https://example.com/home/DrugSearch?page=1'',
                Jitter, Request ''https://example.com/home/Result?drugId=1'',
                Jitter, Request ''https://example.com/home/Result?drugId=2''],
       files = [1 \<mapsto> [(''REG-1'', ''detail 1'')]]\<rparr>)"
    using process_one_page_details [OF h1 cat [of catalogue_doc] h3, THEN conjunct1]
    unfolding response.simps catalogue_items sum.case catalogue_visit
    by (simp add: put_all_two empty_world_def)
  have c: "process_one_page (stub_env hollow_host catalogue_doc) allow_all_parser ''ua'' 1 empty_world =
     (Inr True,
      \<lparr>trace = [Jitter, Request ''https://example.com/home/DrugSearch?page=1'',
                Jitter, Request ''https://example.com/home/Result?drugId=1'',
                Jitter, Request ''https://example.com/home/Result?drugId=2''],
       files = [1 \<mapsto> [(''REG-1'', ''detail 1'')]]\<rparr>)"
    using process_one_page_details [OF h1 hol [of catalogue_doc] h3, THEN conjunct1]
    unfolding response.simps catalogue_items sum.case hollow_visit
    by (simp add: put_all_two empty_world_def)
  have d: "process_one_page (stub_env full_host broken_doc) allow_all_parser ''ua'' 1 empty_world =
     (Inl ValueError,
      \<lparr>trace = [Jitter, Request ''https://example.com/home/DrugSearch?page=1''],
       files = Map.empty\<rparr>)"
    using process_one_page_details [OF h1 full [of broken_doc] h3, THEN conjunct1]
    unfolding response.simps broken_items
    by (simp add: empty_world_def)
  show ?thesis
    using a b c d by simp
qed

subsection \<open>The loop over the pages\<close>


lemma page_loop_skip:
  "files w page \<noteq> None \<Longrightarrow>
   page_loop e rp ua (page # pages) c w = page_loop e rp ua pages c w"
  by simp



lemma page_loop_raise:
  "files w page = None \<Longrightarrow> process_one_page e rp ua page w = (Inl x, w') \<Longrightarrow>
   page_loop e rp ua (page # pages) c w = (Inl x, w')"
  by simp









subsection \<open>The runner\<close>

lemma init_robots_parser_eq:
  "init_robots_parser e robots w =
     (if base_error e then (Inl ValueError, w)
      else if url_error e (urljoin e (BASE_URL e) ''/robots.txt'') then (Inr RobotFileParser, w)
      else (Inr (case rp_read robots RobotFileParser of Some rp' \<Rightarrow> rp' | None \<Rightarrow> RobotFileParser),
            w\<lparr>trace := trace w @ [ReadRobots (urljoin e (BASE_URL e) ''/robots.txt'')]\<rparr>))"
  by (simp add: init_robots_parser_def call_urljoin_eq call_urlparse_path_def join_raises_plain
      split: option.splits)

lemma init_robots_parser_files [simp]: "files (snd (init_robots_parser e robots w)) = files w"
  by (simp add: init_robots_parser_eq)

lemma init_robots_parser_requests [simp]:
  "requests_of (trace (snd (init_robots_parser e robots w))) = requests_of (trace w)"
  by (simp add: init_robots_parser_eq requests_of_append)

lemma run_range_raised:
  assumes "fst (init_robots_parser e robots w) = Inl x"
  shows "run_range e robots ua start_page end_page w = (Some x, w)"
  using assms by (auto simp: run_range_def init_robots_parser_eq split: if_splits)

lemma run_range_denied:
  assumes "fst (init_robots_parser e robots w) = Inr rp"
    and "\<not> (can_fetch e rp ua ''/home/DrugSearch'' \<and> can_fetch e rp ua ''/home/Result'')"
  shows "run_range e robots ua start_page end_page w = (None, snd (init_robots_parser e robots w))"
  using assms by (cases "init_robots_parser e robots w") (auto simp: run_range_def)






lemma stub_base [simp]: "\<not> base_error (stub_env h d)"
  by (simp add: base_error_def url_error_def stub_env_def)




subsection \<open>Consecutive failures\<close>
















subsection \<open>Checkpoints\<close>


lemma after_loop_snd [simp]: "snd (after_loop r) = snd r"
  by (cases r rule: after_loop.cases) simp_all







subsection \<open>A robots.txt that cannot be loaded\<close>

text \<open>
  C1, on the code. When the retrieval of robots.txt raises (no connection, or a body
  that cannot be decoded), \<^verbatim>\<open>init_robots_parser\<close> catches the exception and returns the
  parser as it was created (unless the base URL is one that \<^verbatim>\<open>urljoin\<close> cannot split:
  then the function raises before any retrieval, whatever the retrieval would give).
  That parser has never been read, so the library's \<^verbatim>\<open>can_fetch\<close> answers \<^verbatim>\<open>False\<close> for
  every user agent and every URL, without raising; the script's \<^verbatim>\<open>can_fetch\<close> passes
  the answer on, and answers \<^verbatim>\<open>True\<close> only for a path on which its own call of
  \<^verbatim>\<open>urljoin\<close> raises. The two paths that \<^verbatim>\<open>run_range\<close> checks are denied, and
  \<^verbatim>\<open>run_range\<close> ends at its first check: the run consists of the retrieval of
  robots.txt alone (and of nothing when \<^verbatim>\<open>set_url\<close> has raised on the URL of
  robots.txt). The policy fails closed, and the load failure alone aborts the crawl.
\<close>

theorem robots_load_failure_closes:
  "fst (init_robots_parser e URLError w) =
     (if base_error e then Inl ValueError else Inr RobotFileParser) \<and>
   fst (init_robots_parser e Undecodable w) =
     (if base_error e then Inl ValueError else Inr RobotFileParser) \<and>
   can_fetch e RobotFileParser ua path_or_url =
     (\<not> startswith path_or_url ''http'' \<and> join_raises e (BASE_URL e) path_or_url) \<and>
   can_fetch e RobotFileParser ua ''/home/DrugSearch'' = base_error e \<and>
   can_fetch e RobotFileParser ua ''/home/Result'' = base_error e \<and>
   run_range e URLError ua start_page end_page w =
     (if base_error e then (Some ValueError, w)
      else if url_error e (urljoin e (BASE_URL e) ''/robots.txt'') then (None, w)
      else (None, w\<lparr>trace := trace w @ [ReadRobots (urljoin e (BASE_URL e) ''/robots.txt'')]\<rparr>)) \<and>
   run_range e Undecodable ua start_page end_page w =
     (if base_error e then (Some ValueError, w)
      else if url_error e (urljoin e (BASE_URL e) ''/robots.txt'') then (None, w)
      else (None, w\<lparr>trace := trace w @ [ReadRobots (urljoin e (BASE_URL e) ''/robots.txt'')]\<rparr>))"
proof -
  have paths: "can_fetch e RobotFileParser ua ''/home/DrugSearch'' = base_error e"
    "can_fetch e RobotFileParser ua ''/home/Result'' = base_error e"
    by (simp_all add: can_fetch_unread startswith_def join_raises_plain)
  have run: "run_range e robots ua start_page end_page w =
     (if base_error e then (Some ValueError, w)
      else if url_error e (urljoin e (BASE_URL e) ''/robots.txt'') then (None, w)
      else (None, w\<lparr>trace := trace w @ [ReadRobots (urljoin e (BASE_URL e) ''/robots.txt'')]\<rparr>))"
    if "rp_read robots RobotFileParser = None" for robots
  proof (cases "base_error e")
    case True
    then have "fst (init_robots_parser e robots w) = Inl ValueError"
      by (simp add: init_robots_parser_eq)
    then show ?thesis
      using True by (simp add: run_range_raised)
  next
    case False
    then have i: "fst (init_robots_parser e robots w) = Inr RobotFileParser"
      using that by (simp add: init_robots_parser_eq)
    have "\<not> (can_fetch e RobotFileParser ua ''/home/DrugSearch'' \<and>
             can_fetch e RobotFileParser ua ''/home/Result'')"
      using False paths by simp
    then have "run_range e robots ua start_page end_page w =
        (None, snd (init_robots_parser e robots w))"
      by (rule run_range_denied [OF i])
    then show ?thesis
      using False by (simp add: init_robots_parser_eq)
  qed
  show ?thesis
    using paths run [of URLError] run [of Undecodable]
    by (simp add: init_robots_parser_eq can_fetch_unread)
qed

theorem robots_load_failure_closes_witness:
  "run_range (stub_env full_host catalogue_doc) URLError ''ua'' 1 None empty_world =
     (None, \<lparr>trace = [ReadRobots ''https://example.com/robots.txt''], files = Map.empty\<rparr>) \<and>
   run_range (stub_env full_host catalogue_doc) Undecodable ''ua'' 1 (Some 10) empty_world =
     (None, \<lparr>trace = [ReadRobots ''https://example.com/robots.txt''], files = Map.empty\<rparr>) \<and>
   \<not> can_fetch (stub_env full_host catalogue_doc) RobotFileParser ''ua'' ''/home/DrugSearch'' \<and>
   \<not> can_fetch (stub_env full_host catalogue_doc) RobotFileParser ''ua''
       ''https://example.com/home/Result?drugId=1''"
  using robots_load_failure_closes [of "stub_env full_host catalogue_doc" empty_world "''ua''"
      "''https://example.com/home/Result?drugId=1''" 1 None]
    robots_load_failure_closes [of "stub_env full_host catalogue_doc" empty_world "''ua''"
      "''https://example.com/home/Result?drugId=1''" 1 "Some 10"]
  by (simp add: empty_world_def startswith_def url_error_def) (simp add: stub_env_def)

subsection \<open>Extraction of the items\<close>

lemma row_item_eq:
  "row_item e tr =
     (if has_item tr
      then (if join_raises e (BASE_URL e) (row_href tr) then Inl ValueError
            else Inr (Some (item_of e tr)))
      else Inr None)"
  by (auto simp: row_item_def has_item_def item_of_def row_href_def row_cells_def select_one_def
      call_urljoin_eq Let_def split: list.splits)

lemma rows_loop_eq:
  "rows_loop e trs items =
     (if list_ex (\<lambda>tr. join_raises e (BASE_URL e) (row_href tr)) (filter has_item trs)
      then Inl ValueError
      else Inr (items @ map (item_of e) (filter has_item trs)))"
  by (induction trs arbitrary: items) (simp_all add: row_item_eq)

lemma parse_listing_eq:
  "parse_listing_for_items e html =
     (if list_ex (\<lambda>tr. join_raises e (BASE_URL e) (row_href tr))
           (filter has_item (table_rows (soup e html)))
      then Inl ValueError
      else Inr (map (item_of e) (filter has_item (table_rows (soup e html)))))"
  by (simp add: parse_listing_for_items_def table_rows_def select_one_def rows_loop_eq
      split: list.splits)

lemma strip_prefix: "\<exists>zs. dropWhile isspace s = strip s @ zs"
proof -
  have "rev (dropWhile isspace s) =
      takeWhile isspace (rev (dropWhile isspace s)) @ dropWhile isspace (rev (dropWhile isspace s))"
    by simp
  then have "dropWhile isspace s =
      rev (dropWhile isspace (rev (dropWhile isspace s))) @
      rev (takeWhile isspace (rev (dropWhile isspace s)))"
    by (metis rev_append rev_rev_ident)
  then show ?thesis by (auto simp: strip_def)
qed

lemma strip_hd: "strip s \<noteq> [] \<Longrightarrow> \<not> isspace (hd (strip s))"
proof -
  assume ne: "strip s \<noteq> []"
  obtain zs where zs: "dropWhile isspace s = strip s @ zs" using strip_prefix by blast
  then have "dropWhile isspace s \<noteq> []" using ne by auto
  then have "\<not> isspace (hd (dropWhile isspace s))" by (rule hd_dropWhile)
  then show ?thesis using zs ne by simp
qed

lemma strip_last: "strip s \<noteq> [] \<Longrightarrow> \<not> isspace (last (strip s))"
proof -
  assume ne: "strip s \<noteq> []"
  let ?d = "dropWhile isspace (rev (dropWhile isspace s))"
  have "?d \<noteq> []" using ne by (simp add: strip_def)
  then have "\<not> isspace (hd ?d)" by (rule hd_dropWhile)
  then show ?thesis using \<open>?d \<noteq> []\<close> by (simp add: strip_def last_rev)
qed

lemma strip_strip: "strip (strip s) = strip s"
proof (cases "strip s = []")
  case True
  have "strip [] = []" by (simp add: strip_def)
  then show ?thesis using True by simp
next
  case False
  have a: "dropWhile isspace (strip s) = strip s"
    using strip_hd [OF False] by (simp add: dropWhile_eq_self_iff)
  have "hd (rev (strip s)) = last (strip s)" using False by (simp add: hd_rev)
  then have b: "dropWhile isspace (rev (strip s)) = rev (strip s)"
    using strip_last [OF False] by (simp add: dropWhile_eq_self_iff)
  show ?thesis
    unfolding strip_def [of "strip s"] a b by simp
qed

text \<open>
  C8, on the code. For a listing content, take the rows of the results table
  that have at least five cells, a first cell whose trimmed text is not empty and an
  anchor with an \<^verbatim>\<open>href\<close> in the last cell. If \<^verbatim>\<open>urljoin\<close> raises on the \<^verbatim>\<open>href\<close> of one
  of them, \<^verbatim>\<open>parse_listing_for_items\<close> raises \<^verbatim>\<open>ValueError\<close>. Otherwise it returns, in
  the order of the rows, the pair of registration number and detail URL of every such
  row; the URL is the \<^verbatim>\<open>href\<close> joined to the base URL, the number is trimmed and not
  empty, and the other rows leave no trace in the result. A content without the
  results table gives the empty list.
\<close>

theorem parse_listing_rows:
  "parse_listing_for_items e html =
     (if list_ex (\<lambda>tr. join_raises e (BASE_URL e) (row_href tr))
           (filter has_item (table_rows (soup e html)))
      then Inl ValueError
      else Inr (map (item_of e) (filter has_item (table_rows (soup e html))))) \<and>
   (select results_tbody (soup e html) = [] \<longrightarrow> parse_listing_for_items e html = Inr []) \<and>
   (\<forall>items. parse_listing_for_items e html = Inr items \<longrightarrow>
      (\<forall>(reg_no, detail_url) \<in> set items. reg_no \<noteq> [] \<and> strip reg_no = reg_no))"
proof -
  have "reg_no \<noteq> [] \<and> strip reg_no = reg_no"
    if "parse_listing_for_items e html = Inr items" "(reg_no, detail_url) \<in> set items"
    for items reg_no detail_url
  proof -
    have "items = map (item_of e) (filter has_item (table_rows (soup e html)))"
      using that(1) by (simp add: parse_listing_eq split: if_splits)
    then have "(reg_no, detail_url) \<in> item_of e ` {tr. has_item tr}"
      using that(2) by auto
    then obtain tr where "has_item tr" "item_of e tr = (reg_no, detail_url)"
      by auto
    then show ?thesis
      by (auto simp: has_item_def item_of_def strip_strip)
  qed
  then have c3: "\<forall>items. parse_listing_for_items e html = Inr items \<longrightarrow>
      (\<forall>(reg_no, detail_url) \<in> set items. reg_no \<noteq> [] \<and> strip reg_no = reg_no)"
    by fast
  have c2: "select results_tbody (soup e html) = [] \<longrightarrow> parse_listing_for_items e html = Inr []"
    by (simp add: parse_listing_eq table_rows_def)
  show ?thesis
    using parse_listing_eq [of e html] c2 c3 by blast
qed

theorem parse_listing_rows_witness:
  "parse_listing_for_items (stub_env always_500 sample_listing) ''page'' =
     Inr [(''REG-1'', ''https://example.com/home/Result?drugId=1'')] \<and>
   parse_listing_for_items (stub_env always_500 no_doc) ''page'' = Inr [] \<and>
   parse_listing_for_items (stub_env always_500 catalogue_doc) ''listing'' =
     Inr [(''REG-1'', ''https://example.com/home/Result?drugId=1''),
          (''REG-2'', ''https://example.com/home/Result?drugId=2'')] \<and>
   parse_listing_for_items (stub_env always_500 broken_doc) ''listing'' = Inl ValueError"
proof -
  let ?e = "stub_env always_500 sample_listing"
  let ?c = "stub_env always_500 catalogue_doc"
  let ?b = "stub_env always_500 broken_doc"
  have rows: "table_rows (soup ?e ''page'') =
      [listing_row ''REG-1'' ''/home/Result?drugId=1'', short_row,
       listing_row ''  '' ''/home/Result?drugId=3'',
       listing_row [CHR 0xA0] ''/home/Result?drugId=4'']"
    by (simp add: table_rows_def stub_env_def sample_listing_def listing_doc_def
        results_tbody_def select_def listing_row_def short_row_def cell_def)
  have crows: "table_rows (soup ?c ''listing'') =
      [listing_row ''REG-1'' ''/home/Result?drugId=1'',
       listing_row ''REG-2'' ''/home/Result?drugId=2'']"
    by (simp add: table_rows_def stub_env_def catalogue_doc_def listing_doc_def
        results_tbody_def select_def listing_row_def cell_def)
  have brows: "table_rows (soup ?b ''listing'') =
      [listing_row ''REG-1'' ''/home/Result?drugId=1'', listing_row ''REG-2'' ''//['']"
    by (simp add: table_rows_def stub_env_def broken_doc_def listing_doc_def
        results_tbody_def select_def listing_row_def cell_def)
  have good: "has_item (listing_row ''REG-1'' ref)" "has_item (listing_row ''REG-2'' ref)" for ref
    by (simp_all add: has_item_def row_cells_def find_all_def select_def listing_row_def cell_def
        get_text_strip_def strip_def isspace_def)
  have short: "\<not> has_item short_row"
    by (simp add: has_item_def row_cells_def find_all_def select_def short_row_def cell_def)
  have blank: "\<not> has_item (listing_row ''  '' ref)" "\<not> has_item (listing_row [CHR 0xA0] ref)" for ref
    by (simp_all add: has_item_def row_cells_def find_all_def select_def listing_row_def cell_def
        get_text_strip_def strip_def isspace_def)
  have href: "row_href (listing_row reg ref) = ref" for reg ref
    by (simp add: row_href_def row_cells_def find_all_def select_def listing_row_def cell_def)
  have item: "item_of (stub_env h d) (listing_row ''REG-1'' ref) = (''REG-1'', ''https://example.com'' @ ref)"
    "item_of (stub_env h d) (listing_row ''REG-2'' ref) = (''REG-2'', ''https://example.com'' @ ref)"
    for h d ref
    by (simp_all add: item_of_def row_href_def row_cells_def find_all_def select_def listing_row_def cell_def
        get_text_strip_def strip_def isspace_def stub_env_def)
  have joins: "\<not> join_raises (stub_env h d) (BASE_URL (stub_env h d)) ''/home/Result?drugId=1''"
    "\<not> join_raises (stub_env h d) (BASE_URL (stub_env h d)) ''/home/Result?drugId=2''"
    "join_raises (stub_env h d) (BASE_URL (stub_env h d)) ''//[''" for h d
    by (simp_all add: join_raises_def url_error_def may_have_netloc_def stub_env_def)
  have none: "select results_tbody (soup (stub_env always_500 no_doc) ''page'') = []"
    by (simp add: stub_env_def no_doc_def select_def)
  have a: "parse_listing_for_items ?e ''page'' =
      Inr [(''REG-1'', ''https://example.com/home/Result?drugId=1'')]"
    using parse_listing_rows [of ?e "''page''", THEN conjunct1]
    by (simp add: rows good short blank item href joins)
  have b: "parse_listing_for_items (stub_env always_500 no_doc) ''page'' = Inr []"
    using parse_listing_rows [of "stub_env always_500 no_doc" "''page''", THEN conjunct2,
        THEN conjunct1] none
    by simp
  have c: "parse_listing_for_items ?c ''listing'' =
     Inr [(''REG-1'', ''https://example.com/home/Result?drugId=1''),
          (''REG-2'', ''https://example.com/home/Result?drugId=2'')]"
    using parse_listing_rows [of ?c "''listing''", THEN conjunct1]
    by (simp add: crows good item href joins)
  have d: "parse_listing_for_items ?b ''listing'' = Inl ValueError"
    using parse_listing_rows [of ?b "''listing''", THEN conjunct1]
    by (simp add: brows good href joins)
  show ?thesis
    using a b c d by simp
qed

subsection \<open>Detection of the last page\<close>

lemma anchors_loop_eq:
  "list_all (\<lambda>label. isdecimal label \<and> length label \<le> max_str_digits)
     (filter isdigit (map get_text_strip as)) \<Longrightarrow>
   anchors_loop as nums = Inr (nums @ map int_of_str (filter isdigit (map get_text_strip as)))"
  by (induction as arbitrary: nums) (auto simp: Let_def call_int_def split: if_splits)

lemma max_list_Max: "xs \<noteq> [] \<Longrightarrow> max_list xs = Max (set xs)"
  by (induction xs rule: max_list.induct) simp_all

lemma max_or_none_Max: "max_or_none nums = (if nums = [] then None else Some (Max (set nums)))"
  by (simp add: max_or_none_def max_list_Max)

text \<open>Of the \<^verbatim>\<open>span\<close> elements the function reads the first one only.\<close>

lemma first_span_only:
  "list_all (\<lambda>sp. \<not> isdigit (get_text_strip sp)) (tl (find_all ''span'' ul)) \<Longrightarrow>
   filter isdigit (map get_text_strip (find_all ''span'' ul)) =
     (case find ''span'' ul of
        None \<Rightarrow> []
      | Some sp \<Rightarrow> if isdigit (get_text_strip sp) then [get_text_strip sp] else [])"
proof (cases "find_all ''span'' ul")
  case Nil
  then show ?thesis by (simp add: find_def)
next
  case (Cons sp sps)
  assume "list_all (\<lambda>sp. \<not> isdigit (get_text_strip sp)) (tl (find_all ''span'' ul))"
  then have "filter isdigit (map get_text_strip sps) = []"
    using Cons by (simp add: list_all_iff filter_empty_conv)
  then show ?thesis
    using Cons by (simp add: find_def)
qed

lemma last_page_of_plain_control:
  assumes "select_one [Sel ''ul'' [''pagination''] False] (soup e html) = Some ul"
    and "plain_control ul"
  shows "find_last_page_number e html =
         Inr (if control_numbers ul = [] then None else Some (Max (set (control_numbers ul))))"
proof -
  let ?anchors = "filter isdigit (map get_text_strip (find_all_href ''a'' ul))"
  let ?spans = "filter isdigit (map get_text_strip (find_all ''span'' ul))"
  have readable: "list_all (\<lambda>label. isdecimal label \<and> length label \<le> max_str_digits) ?anchors"
    "list_all (\<lambda>label. isdecimal label \<and> length label \<le> max_str_digits) ?spans"
    using assms(2) by (simp_all add: plain_control_def control_labels_def)
  have loop: "anchors_loop (find_all_href ''a'' ul) [] = Inr (map int_of_str ?anchors)"
    using anchors_loop_eq [OF readable(1), of "[]"] by simp
  have spans: "?spans =
      (case find ''span'' ul of
         None \<Rightarrow> []
       | Some sp \<Rightarrow> if isdigit (get_text_strip sp) then [get_text_strip sp] else [])"
    using assms(2) by (intro first_span_only) (simp add: plain_control_def)
  have nums: "control_numbers ul = map int_of_str ?anchors @ map int_of_str ?spans"
    by (simp add: control_numbers_def control_labels_def)
  show ?thesis
  proof (cases "find ''span'' ul")
    case None
    then show ?thesis
      using assms(1) loop spans nums
      by (simp add: find_last_page_number_def max_or_none_Max)
  next
    case (Some sp)
    show ?thesis
    proof (cases "isdigit (get_text_strip sp)")
      case False
      then show ?thesis
        using assms(1) loop spans nums Some
        by (simp add: find_last_page_number_def max_or_none_Max)
    next
      case True
      then have "?spans = [get_text_strip sp]"
        using spans Some by simp
      then have "isdecimal (get_text_strip sp) \<and> length (get_text_strip sp) \<le> max_str_digits"
        using readable(2) by simp
      then have "call_int (get_text_strip sp) = Inr (int_of_str (get_text_strip sp))"
        by (simp add: call_int_def)
      then show ?thesis
        using assms(1) loop spans nums Some True
        by (simp add: find_last_page_number_def max_or_none_Max)
    qed
  qed
qed

lemma get_text_digits [simp]: "get_text_strip (Tag n cs h [Text ''1'']) = ''1''"
  "get_text_strip (Tag n cs h [Text ''2'']) = ''2''"
  "get_text_strip (Tag n cs h [Text ''3'']) = ''3''"
  "get_text_strip (Tag n cs h [Text ''>>'']) = ''>>''"
  "get_text_strip (Tag n cs h [Text ''...'']) = ''...''"
  "get_text_strip (Tag n cs h [Text [CHR 0xB2]]) = [CHR 0xB2]"
  by (simp_all add: get_text_strip_def strip_def isspace_def)

lemma isdigit_digits [simp]: "isdigit ''1''" "isdigit ''2''" "isdigit ''3''" "\<not> isdigit ''>>''"
  "\<not> isdigit ''...''" "isdigit [CHR 0xB2]"
  by (simp_all add: isdigit_def isdigit_char_def isdecimal_char_def)

lemma isdecimal_digits [simp]: "isdecimal ''1''" "isdecimal ''2''" "isdecimal ''3''"
  "\<not> isdecimal [CHR 0xB2]"
  by (simp_all add: isdecimal_def isdecimal_char_def)

lemma int_of_digits [simp]: "int_of_str ''1'' = 1" "int_of_str ''2'' = 2" "int_of_str ''3'' = 3"
  by (simp_all add: int_of_str_def)

lemma call_int_digits [simp]: "call_int ''1'' = Inr 1" "call_int ''2'' = Inr 2"
  "call_int ''3'' = Inr 3" "call_int [CHR 0xB2] = Inl ValueError"
  by (simp_all add: call_int_def max_str_digits_def)

lemma pager_control:
  "select_one [Sel ''ul'' [''pagination''] False] (soup (stub_env h (pager entries)) html) =
     Some (Tag ''ul'' [''pagination''] None entries)"
  by (simp add: select_one_def select_def stub_env_def pager_def)

lemma sample_pager:
  "plain_control (Tag ''ul'' [''pagination''] None
      [page_link ''1'', current_span ''2'', page_link ''2'', page_link ''3''])"
  "control_numbers (Tag ''ul'' [''pagination''] None
      [page_link ''1'', current_span ''2'', page_link ''2'', page_link ''3'']) = [1, 2, 3, 2]"
  by (simp_all add: plain_control_def control_numbers_def control_labels_def find_all_href_def
      find_all_def select_def page_link_def current_span_def max_str_digits_def)

lemma arrow_pager:
  "plain_control (Tag ''ul'' [''pagination''] None [page_link ''>>''])"
  "control_numbers (Tag ''ul'' [''pagination''] None [page_link ''>>'']) = []"
  by (simp_all add: plain_control_def control_numbers_def control_labels_def find_all_href_def
      find_all_def select_def page_link_def)

lemma span_pager:
  "plain_control (Tag ''ul'' [''pagination''] None [current_span ''3'', ellipsis])"
  "control_numbers (Tag ''ul'' [''pagination''] None [current_span ''3'', ellipsis]) = [3]"
  by (simp_all add: plain_control_def control_numbers_def control_labels_def find_all_href_def
      find_all_def select_def current_span_def ellipsis_def max_str_digits_def)

text \<open>
  C9, as the code has it. For every page content without an \<^verbatim>\<open>ul.pagination\<close>,
  \<^verbatim>\<open>find_last_page_number\<close> returns \<^verbatim>\<open>None\<close>. For a content whose first such control
  is plain, it returns the greatest of the numbers of the control: the labels made
  of digits of the anchors that have an \<^verbatim>\<open>href\<close> attribute, together with the current
  page when it is rendered as a \<^verbatim>\<open>span\<close>; it returns \<^verbatim>\<open>None\<close> when the control has no
  such number. Anchors with \<^verbatim>\<open>href\<close> labelled 1, 2, 3 and a span labelled 2 give 3.
\<close>

theorem find_last_page_number_max:
  "(select_one [Sel ''ul'' [''pagination''] False] (soup e html) = None \<longrightarrow>
      find_last_page_number e html = Inr None) \<and>
   (select_one [Sel ''ul'' [''pagination''] False] (soup e html) = Some ul \<and> plain_control ul \<longrightarrow>
      find_last_page_number e html =
        Inr (if control_numbers ul = [] then None else Some (Max (set (control_numbers ul)))))"
  using last_page_of_plain_control [of e html ul]
  by (simp add: find_last_page_number_def)

theorem find_last_page_number_max_witness:
  "find_last_page_number
     (stub_env always_500 (pager [page_link ''1'', current_span ''2'', page_link ''2'', page_link ''3'']))
     ''page'' = Inr (Some 3) \<and>
   find_last_page_number (stub_env always_500 (pager [current_span ''3'', ellipsis])) ''page'' =
     Inr (Some 3) \<and>
   find_last_page_number (stub_env always_500 (pager [page_link ''>>''])) ''page'' = Inr None \<and>
   find_last_page_number (stub_env always_500 no_doc) ''page'' = Inr None"
proof -
  have none: "select_one [Sel ''ul'' [''pagination''] False] (soup (stub_env always_500 no_doc) ''page'') = None"
    by (simp add: select_one_def select_def stub_env_def no_doc_def)
  have a: "find_last_page_number
     (stub_env always_500 (pager [page_link ''1'', current_span ''2'', page_link ''2'', page_link ''3'']))
     ''page'' = Inr (Some 3)"
    using find_last_page_number_max [of "stub_env always_500
          (pager [page_link ''1'', current_span ''2'', page_link ''2'', page_link ''3''])" "''page''"
        "Tag ''ul'' [''pagination''] None
           [page_link ''1'', current_span ''2'', page_link ''2'', page_link ''3'']", THEN conjunct2]
    by (simp add: pager_control sample_pager)
  have b: "find_last_page_number (stub_env always_500 (pager [current_span ''3'', ellipsis])) ''page'' =
     Inr (Some 3)"
    using find_last_page_number_max [of "stub_env always_500 (pager [current_span ''3'', ellipsis])"
        "''page''" "Tag ''ul'' [''pagination''] None [current_span ''3'', ellipsis]", THEN conjunct2]
    by (simp add: pager_control span_pager)
  have c: "find_last_page_number (stub_env always_500 (pager [page_link ''>>''])) ''page'' = Inr None"
    using find_last_page_number_max [of "stub_env always_500 (pager [page_link ''>>''])" "''page''"
        "Tag ''ul'' [''pagination''] None [page_link ''>>'']", THEN conjunct2]
    by (simp add: pager_control arrow_pager)
  have d: "find_last_page_number (stub_env always_500 no_doc) ''page'' = Inr None"
    using find_last_page_number_max [of "stub_env always_500 no_doc" "''page''", THEN conjunct1] none
    by simp
  show ?thesis
    using a b c d by simp
qed

text \<open>
  An anchor without \<^verbatim>\<open>href\<close> is not counted: a control whose anchors are labelled 1, 2
  and 3, the last one being the current page rendered as an anchor without \<^verbatim>\<open>href\<close>,
  gives 2, which is not the greatest anchor label. Nor is a current page counted that
  is the text of its list item, with no \<^verbatim>\<open>span\<close> around it: links to the pages 1 and 2
  and the current page 3 give 2.
\<close>

theorem find_last_page_number_counterexample:
  "map get_text_strip
     (find_all ''a'' (Tag ''ul'' [''pagination''] None
        [page_link ''1'', page_link ''2'', current_anchor ''3''])) = [''1'', ''2'', ''3''] \<and>
   find_last_page_number
     (stub_env always_500 (pager [page_link ''1'', page_link ''2'', current_anchor ''3'']))
     ''page'' = Inr (Some 2) \<and>
   find_last_page_number
     (stub_env always_500 (pager [page_link ''1'', page_link ''2'', current_text ''3'']))
     ''page'' = Inr (Some 2)"
proof -
  let ?ul = "Tag ''ul'' [''pagination''] None [page_link ''1'', page_link ''2'', current_anchor ''3'']"
  have labels: "map get_text_strip (find_all ''a'' ?ul) = [''1'', ''2'', ''3'']"
    by (simp add: find_all_def select_def page_link_def current_anchor_def)
  have plain: "plain_control ?ul" and nums: "control_numbers ?ul = [1, 2]"
    by (simp_all add: plain_control_def control_numbers_def control_labels_def find_all_href_def
        find_all_def select_def page_link_def current_anchor_def max_str_digits_def)
  have "find_last_page_number
     (stub_env always_500 (pager [page_link ''1'', page_link ''2'', current_anchor ''3'']))
     ''page'' = Inr (Some 2)"
    using last_page_of_plain_control [OF pager_control plain, of always_500 "''page''"]
    by (simp add: nums)
  moreover have "find_last_page_number
     (stub_env always_500 (pager [page_link ''1'', page_link ''2'', current_text ''3'']))
     ''page'' = Inr (Some 2)"
    by (simp add: find_last_page_number_def pager_control find_all_href_def find_def find_all_def
        select_def page_link_def current_text_def max_or_none_def)
  ultimately show ?thesis
    using labels by simp
qed

text \<open>
  Two inputs outside the plain controls. When an ellipsis rendered as a \<^verbatim>\<open>span\<close> stands
  before the current page, the current page is not read: with links to the pages 1
  and 2 and the current page 3 the result is 2. A label made of a superscript digit
  passes \<^verbatim>\<open>isdigit\<close> and makes \<^verbatim>\<open>int\<close> raise.
\<close>

lemma span_after_span:
  "find_last_page_number
     (stub_env always_500 (pager [page_link ''1'', page_link ''2'', ellipsis, current_span ''3'']))
     ''page'' = Inr (Some 2)"
  by (simp add: find_last_page_number_def pager_control find_all_href_def find_def find_all_def
      select_def page_link_def current_span_def ellipsis_def max_or_none_def)

lemma superscript_label:
  "find_last_page_number (stub_env always_500 (pager [page_link [CHR 0xB2]])) ''page'' =
     Inl ValueError"
  by (simp add: find_last_page_number_def pager_control find_all_href_def find_def find_all_def
      select_def page_link_def)

end
